theory Spec2Isabelle
  imports Complex_Main "HOL-Library.AList"
begin

section \<open>Python conventions\<close>

text \<open>
  Python floats are modelled as reals (with the rounding of doubles where a decision hangs on
  it, see below), Python ints as \<open>int\<close>. Dictionaries whose iteration
  order is observed (the catalogue, the candidate lists, the plan's orders) are association
  lists updated with \<open>AList.update\<close>, which replaces the value of an existing key in place
  and appends a new key at the end, as a Python \<open>dict\<close> does. The other dictionaries are
  maps. A missing key, an empty sequence and an empty sample raise.

  Two things are outside the program and are parameters of the functions that call them: the
  solver of the selection problem (PuLP with CBC) and the random generator of the environment.
\<close>

datatype error = KeyError string | IndexError | StatisticsError

text \<open>\<open>round(x)\<close> of Python 3: to the nearest integer, a tie to the even neighbour.\<close>

definition py_round :: "real \<Rightarrow> int" where
  "py_round x =
     (let f = \<lfloor>x\<rfloor>; d = x - of_int f
      in if d < 1 / 2 then f else if 1 / 2 < d then f + 1 else if even f then f else f + 1)"

text \<open>\<open>round(x, 2)\<close>: to two decimals.\<close>

definition round2 :: "real \<Rightarrow> real" where
  "round2 x = of_int (py_round (x * 100)) / 100"

text \<open>
  A double is a real. Where the program decides on the result of floating-point arithmetic
  that a property below speaks of (the estimator's mean and deviation, the z-score, the days
  of cover), the arithmetic is rounded as IEEE 754 binary64 does, to the nearest double, a tie
  to the even significand: \<open>e\<close> is the exponent of the binade of \<open>x\<close>, not below that of the
  subnormal numbers, and \<open>u\<close> the distance of two neighbouring doubles there. Overflow is left
  out: the magnitudes that occur are far below \<open>2 ^ 1024\<close>.
\<close>

definition round_double :: "real \<Rightarrow> real" where
  "round_double x =
     (if x = 0 then 0
      else let e = max \<lfloor>log 2 \<bar>x\<bar>\<rfloor> (- 1022);
               u = 2 powr real_of_int (e - 52)
           in real_of_int (py_round (x / u)) * u)"

text \<open>Subtraction and division of two doubles.\<close>

definition fsub :: "real \<Rightarrow> real \<Rightarrow> real" where
  "fsub a b = round_double (a - b)"

definition fdiv :: "real \<Rightarrow> real \<Rightarrow> real" where
  "fdiv a b = round_double (a / b)"

text \<open>\<open>math.erf\<close>: the error function, by its Maclaurin series.\<close>

definition erf :: "real \<Rightarrow> real" where
  "erf x = 2 / sqrt pi * (\<Sum>n. (- 1) ^ n * x ^ (2 * n + 1) / (fact n * of_nat (2 * n + 1)))"

section \<open>config.py\<close>

record product =
  name :: string
  daily_demand_mean :: int
  daily_demand_std :: int
  unit_price :: real
  unit_cost :: real
  holding_cost_per_unit_day :: real
  order_fixed_cost :: real
  lead_time_days :: "int \<times> int"
  initial_stock :: int

definition SERVICE_LEVEL_TARGET :: real where "SERVICE_LEVEL_TARGET = 95 / 100"
definition INITIAL_BUDGET :: real where "INITIAL_BUDGET = 30000"
definition DAILY_BUDGET_LIMIT :: real where "DAILY_BUDGET_LIMIT = 30000"
definition BULLWHIP_LAMBDA :: real where "BULLWHIP_LAMBDA = 1"
definition CANDIDATE_QTYS :: "int list" where
  "CANDIDATE_QTYS = [0, 25, 50, 75, 100, 150, 200, 250]"
definition STOCKOUT_PENALTY_PER_UNIT :: real where "STOCKOUT_PENALTY_PER_UNIT = 300"
definition OVERSTOCK_DAYS_OF_COVER :: int where "OVERSTOCK_DAYS_OF_COVER = 45"
definition STOP_ORDERS_DAYS :: int where "STOP_ORDERS_DAYS = 2"
definition Z_BASE :: real where "Z_BASE = 25 / 10"
definition Z_MIN :: real where "Z_MIN = 2"
definition Z_MAX :: real where "Z_MAX = 35 / 10"
definition VOL_TO_Z_SCALE :: real where "VOL_TO_Z_SCALE = 12 / 100"
definition FORECAST_WINDOW_DAYS :: int where "FORECAST_WINDOW_DAYS = 14"
definition ANOMALY_Z_THRESHOLD :: real where "ANOMALY_Z_THRESHOLD = 2"

definition PRODUCTS :: "(string \<times> product) list" where
  "PRODUCTS =
    [(''SKU_001'', \<lparr>name = ''Laptop'', daily_demand_mean = 20, daily_demand_std = 4,
        unit_price = 1000, unit_cost = 550, holding_cost_per_unit_day = 3 / 10,
        order_fixed_cost = 50, lead_time_days = (2, 4), initial_stock = 550\<rparr>),
     (''SKU_002'', \<lparr>name = ''Phone'', daily_demand_mean = 35, daily_demand_std = 8,
        unit_price = 700, unit_cost = 350, holding_cost_per_unit_day = 25 / 100,
        order_fixed_cost = 45, lead_time_days = (2, 5), initial_stock = 750\<rparr>),
     (''SKU_003'', \<lparr>name = ''Headphones'', daily_demand_mean = 55, daily_demand_std = 15,
        unit_price = 120, unit_cost = 45, holding_cost_per_unit_day = 8 / 100,
        order_fixed_cost = 25, lead_time_days = (1, 3), initial_stock = 550\<rparr>),
     (''SKU_004'', \<lparr>name = ''Mouse'', daily_demand_mean = 70, daily_demand_std = 18,
        unit_price = 35, unit_cost = 8, holding_cost_per_unit_day = 2 / 100,
        order_fixed_cost = 15, lead_time_days = (1, 2), initial_stock = 700\<rparr>)]"

text \<open>\<open>config.PRODUCTS[sku]\<close>\<close>

definition product_of :: "string \<Rightarrow> error + product" where
  "product_of sku = (case map_of PRODUCTS sku of None \<Rightarrow> Inl (KeyError sku) | Some p \<Rightarrow> Inr p)"

section \<open>knowledge/knowledge.py\<close>

record OrderRecord =
  or_day :: int
  or_sku :: string
  or_qty :: int
  or_spend :: real

text \<open>One day's outcome of a product, as \<open>record_outcome\<close> stores it.\<close>

record DemandRecord =
  dr_day :: int
  demand :: int
  sales :: int
  lost_sales :: int

text \<open>A pending order, as \<open>Monitor.observe\<close> snapshots it.\<close>

record PendingOrder =
  po_sku :: string
  po_qty :: int
  po_arrival_day :: int
  po_unit_cost :: real

record ForecastRecord =
  fc_mean :: real
  fc_std :: real
  fc_model :: string

datatype anomaly_type = spike | drop_t

record Anomaly =
  an_type :: anomaly_type
  an_z :: real
  an_today :: real
  an_mean :: real

record Knowledge =
  day :: int
  budget :: real
  stock_levels :: "string \<rightharpoonup> int"
  pending_orders :: "PendingOrder list"
  history :: "string \<rightharpoonup> DemandRecord list"
  orders :: "string \<rightharpoonup> OrderRecord list"
  forecast :: "string \<rightharpoonup> ForecastRecord"
  volatility :: "string \<rightharpoonup> real"
  service_level :: "string \<rightharpoonup> real"
  anomalies :: "string \<rightharpoonup> Anomaly"
  policy_service_level_target :: real
  policy_daily_budget_limit :: real
  daily_budget_spent :: real
  safety_z :: "string \<rightharpoonup> real"
  blocks :: "string \<rightharpoonup> int"

text \<open>\<open>Knowledge.__init__\<close>\<close>

definition Knowledge_init :: Knowledge where
  "Knowledge_init =
     \<lparr>day = 0, budget = INITIAL_BUDGET,
      stock_levels = map_of (map (\<lambda>(sku, p). (sku, initial_stock p)) PRODUCTS),
      pending_orders = [],
      history = map_of (map (\<lambda>(sku, p). (sku, [])) PRODUCTS),
      orders = map_of (map (\<lambda>(sku, p). (sku, [])) PRODUCTS),
      forecast = Map.empty, volatility = Map.empty, service_level = Map.empty,
      anomalies = Map.empty,
      policy_service_level_target = SERVICE_LEVEL_TARGET,
      policy_daily_budget_limit = DAILY_BUDGET_LIMIT,
      daily_budget_spent = 0,
      safety_z = map_of (map (\<lambda>(sku, p). (sku, Z_BASE)) PRODUCTS),
      blocks = Map.empty\<rparr>"

definition update_day :: "Knowledge \<Rightarrow> int \<Rightarrow> Knowledge" where
  "update_day kb d = kb\<lparr>day := d, daily_budget_spent := 0\<rparr>"

text \<open>The outcome of a day, as the environment reports it.\<close>

record Outcome =
  oc_demand :: "string \<rightharpoonup> int"
  oc_sales :: "string \<rightharpoonup> int"
  oc_lost_sales :: "string \<rightharpoonup> int"

text \<open>\<open>Knowledge.record_outcome\<close>: one more record for every product that has a history.\<close>

definition record_outcome :: "Knowledge \<Rightarrow> Outcome \<Rightarrow> Knowledge" where
  "record_outcome kb outcome =
     kb\<lparr>history := (\<lambda>sku.
          case history kb sku of
            None \<Rightarrow> None
          | Some h \<Rightarrow>
              Some (h @ [\<lparr>dr_day = day kb,
                          demand = (case oc_demand outcome sku of None \<Rightarrow> 0 | Some n \<Rightarrow> n),
                          sales = (case oc_sales outcome sku of None \<Rightarrow> 0 | Some n \<Rightarrow> n),
                          lost_sales = (case oc_lost_sales outcome sku of None \<Rightarrow> 0 | Some n \<Rightarrow> n)\<rparr>]))\<rparr>"

definition record_order :: "Knowledge \<Rightarrow> string \<Rightarrow> int \<Rightarrow> real \<Rightarrow> error + Knowledge" where
  "record_order kb sku q s =
     (case orders kb sku of
        None \<Rightarrow> Inl (KeyError sku)
      | Some os \<Rightarrow>
          Inr (kb\<lparr>orders := (orders kb)(sku \<mapsto>
                 os @ [\<lparr>or_day = day kb, or_sku = sku, or_qty = q, or_spend = s\<rparr>])\<rparr>))"

text \<open>\<open>h[-window_days:]\<close> is the last \<open>window_days\<close> records, all of them when there are fewer.\<close>

definition get_recent_history :: "Knowledge \<Rightarrow> string \<Rightarrow> int \<Rightarrow> error + DemandRecord list" where
  "get_recent_history kb sku window_days =
     (case history kb sku of
        None \<Rightarrow> Inl (KeyError sku)
      | Some h \<Rightarrow> if window_days \<le> 0 then Inr h else Inr (drop (length h - nat window_days) h))"

definition get_stock :: "Knowledge \<Rightarrow> string \<Rightarrow> int" where
  "get_stock kb sku = (case stock_levels kb sku of None \<Rightarrow> 0 | Some n \<Rightarrow> n)"

definition get_stock_position :: "Knowledge \<Rightarrow> string \<Rightarrow> int" where
  "get_stock_position kb sku =
     (let on_hand = get_stock kb sku;
          in_transit = sum_list (map po_qty (filter (\<lambda>po. po_sku po = sku) (pending_orders kb)))
      in on_hand + in_transit)"

definition get_last_order_qty :: "Knowledge \<Rightarrow> string \<Rightarrow> error + int" where
  "get_last_order_qty kb sku =
     (case orders kb sku of
        None \<Rightarrow> Inl (KeyError sku)
      | Some os \<Rightarrow> if os = [] then Inr 0 else Inr (or_qty (last os)))"

definition is_blocked :: "Knowledge \<Rightarrow> string \<Rightarrow> bool" where
  "is_blocked kb sku = (case blocks kb sku of None \<Rightarrow> False | Some until \<Rightarrow> day kb \<le> until)"

definition block_orders :: "Knowledge \<Rightarrow> string \<Rightarrow> int \<Rightarrow> Knowledge" where
  "block_orders kb sku days = kb\<lparr>blocks := (blocks kb)(sku \<mapsto> day kb + max 0 days)\<rparr>"

definition store_forecast :: "Knowledge \<Rightarrow> string \<Rightarrow> real \<Rightarrow> real \<Rightarrow> string \<Rightarrow> Knowledge" where
  "store_forecast kb sku m s model =
     kb\<lparr>forecast := (forecast kb)(sku \<mapsto> \<lparr>fc_mean = m, fc_std = s, fc_model = model\<rparr>)\<rparr>"

definition store_volatility :: "Knowledge \<Rightarrow> string \<Rightarrow> real \<Rightarrow> Knowledge" where
  "store_volatility kb sku vol = kb\<lparr>volatility := (volatility kb)(sku \<mapsto> vol)\<rparr>"

definition store_service_level :: "Knowledge \<Rightarrow> string \<Rightarrow> real \<Rightarrow> Knowledge" where
  "store_service_level kb sku sl = kb\<lparr>service_level := (service_level kb)(sku \<mapsto> sl)\<rparr>"

definition store_anomaly :: "Knowledge \<Rightarrow> string \<Rightarrow> Anomaly option \<Rightarrow> Knowledge" where
  "store_anomaly kb sku anomaly =
     (case anomaly of
        None \<Rightarrow> kb\<lparr>anomalies := (anomalies kb)(sku := None)\<rparr>
      | Some a \<Rightarrow> kb\<lparr>anomalies := (anomalies kb)(sku \<mapsto> a)\<rparr>)"

definition set_safety_z :: "Knowledge \<Rightarrow> string \<Rightarrow> real \<Rightarrow> Knowledge" where
  "set_safety_z kb sku z = kb\<lparr>safety_z := (safety_z kb)(sku \<mapsto> z)\<rparr>"

section \<open>automatic\_manager/analyzer.py\<close>

text \<open>
  \<open>statistics.mean\<close> and \<open>statistics.pstdev\<close>: both raise on an empty sample. Both work
  on exact fractions and round once at the end: the mean is the double nearest to the exact
  mean, the deviation the double nearest to the square root of the exact population variance
  (about the exact mean).
\<close>

definition statistics_mean :: "real list \<Rightarrow> error + real" where
  "statistics_mean xs =
     (if xs = [] then Inl StatisticsError
      else Inr (round_double (sum_list xs / real (length xs))))"

definition statistics_pstdev :: "real list \<Rightarrow> error + real" where
  "statistics_pstdev xs =
     (if xs = [] then Inl StatisticsError
      else let m = sum_list xs / real (length xs)
           in Inr (round_double (sqrt (sum_list (map (\<lambda>x. (x - m)\<^sup>2) xs) / real (length xs)))))"

text \<open>
  \<open>Analyzer._mean_std\<close>. The product by 0.25 is exact in doubles wherever it exceeds 1, so
  \<open>max(1.0, abs(m) * 0.25)\<close> is the real maximum.
\<close>

definition mean_std :: "real list \<Rightarrow> error + real \<times> real" where
  "mean_std xs =
     (if xs = [] then Inr (0, 1)
      else if length xs = 1 then Inr (xs ! 0, max 1 (\<bar>xs ! 0\<bar> * (25 / 100)))
      else case statistics_mean xs of
             Inl e \<Rightarrow> Inl e
           | Inr m \<Rightarrow>
               (case statistics_pstdev xs of
                  Inl e \<Rightarrow> Inl e
                | Inr s \<Rightarrow> Inr (m, if s > 1 / 10 ^ 6 then s else max 1 (\<bar>m\<bar> * (25 / 100)))))"

text \<open>The result of \<open>Analyzer.analyze\<close>: the day and the anomalies found, by product.\<close>

record Analysis =
  an_day :: int
  an_anomalies :: "(string \<times> Anomaly) list"

text \<open>
  The z-score of \<open>analyze\<close> (line 52): a subtraction and a division of doubles. The literal
  \<open>1e-6\<close> is the double just below \<open>1 / 10 ^ 6\<close>; no double lies between the two, so the test
  of a double against either is the same.
\<close>

definition z_score :: "real \<Rightarrow> real \<Rightarrow> real \<Rightarrow> real" where
  "z_score today m s = fdiv (fsub today m) (if s > 1 / 10 ^ 6 then s else 1)"

text \<open>The anomaly test of \<open>analyze\<close> (lines 49 to 56) on a window, its forecast and the threshold.\<close>

definition detect_anomaly :: "DemandRecord list \<Rightarrow> real \<Rightarrow> real \<Rightarrow> real \<Rightarrow> Anomaly option" where
  "detect_anomaly hist m s z_thr =
     (if hist \<noteq> [] then
        let today = real_of_int (sales (last hist) + lost_sales (last hist));
            z = z_score today m s
        in if z > z_thr then Some \<lparr>an_type = spike, an_z = z, an_today = today, an_mean = m\<rparr>
           else if z < - z_thr then
             Some \<lparr>an_type = drop_t, an_z = z, an_today = today, an_mean = m\<rparr>
           else None
      else None)"

text \<open>The body of the loop of \<open>Analyzer.analyze\<close>, for one product.\<close>

definition analyze_sku :: "string \<Rightarrow> Knowledge \<times> Analysis \<Rightarrow> error + Knowledge \<times> Analysis" where
  "analyze_sku sku st =
     (let kb = fst st; results = snd st in
      case get_recent_history kb sku FORECAST_WINDOW_DAYS of
        Inl e \<Rightarrow> Inl e
      | Inr hist \<Rightarrow>
          let eff_demand = map (\<lambda>r. real_of_int (sales r + lost_sales r)) hist in
          (case mean_std eff_demand of
             Inl e \<Rightarrow> Inl e
           | Inr (m, s) \<Rightarrow>
               let kb1 = store_forecast kb sku m s ''moving_average'' in
               (case (if length eff_demand > 1 then statistics_pstdev eff_demand else Inr s) of
                  Inl e \<Rightarrow> Inl e
                | Inr vol \<Rightarrow>
                    let kb2 = store_volatility kb1 sku vol;
                        sum_d = (if hist \<noteq> [] then sum_list (map demand hist) else 0);
                        sum_s = (if hist \<noteq> [] then sum_list (map sales hist) else 0);
                        sl = (if sum_d > 0 then real_of_int sum_s / real_of_int sum_d else 1);
                        kb3 = store_service_level kb2 sku sl;
                        anomaly = detect_anomaly hist m s ANOMALY_Z_THRESHOLD;
                        kb4 = store_anomaly kb3 sku anomaly
                    in Inr (kb4,
                            case anomaly of
                              None \<Rightarrow> results
                            | Some a \<Rightarrow>
                                results\<lparr>an_anomalies :=
                                  AList.update sku a (an_anomalies results)\<rparr>))))"

text \<open>A loop that stops at the first exception.\<close>

fun for_each :: "('a \<Rightarrow> 's \<Rightarrow> error + 's) \<Rightarrow> 'a list \<Rightarrow> 's \<Rightarrow> error + 's" where
  "for_each f [] s = Inr s"
| "for_each f (x # xs) s = (case f x s of Inl e \<Rightarrow> Inl e | Inr s' \<Rightarrow> for_each f xs s')"

text \<open>\<open>Analyzer.analyze\<close>\<close>

definition analyze :: "Knowledge \<Rightarrow> error + Knowledge \<times> Analysis" where
  "analyze kb = for_each analyze_sku (map fst PRODUCTS) (kb, \<lparr>an_day = day kb, an_anomalies = []\<rparr>)"

section \<open>automatic\_manager/planner.py\<close>

record Candidate =
  qty :: int
  utility :: real
  spend :: real

text \<open>\<open>Planner._norm_cdf\<close> and \<open>Planner._norm_pdf\<close>\<close>

definition norm_cdf :: "real \<Rightarrow> real" where
  "norm_cdf z = (1 / 2) * (1 + erf (z / sqrt 2))"

definition norm_pdf :: "real \<Rightarrow> real" where
  "norm_pdf z = (1 / sqrt (2 * pi)) * exp (- (1 / 2) * z * z)"

text \<open>\<open>Planner._expected_sales_stockout\<close>\<close>

definition expected_sales_stockout :: "real \<Rightarrow> real \<Rightarrow> real \<Rightarrow> real \<times> real" where
  "expected_sales_stockout mu sigma available =
     (if sigma \<le> 1 / 10 ^ 6 then
        let sold = min mu available;
            stockout = max 0 (mu - sold)
        in (max 0 sold, stockout)
      else
        let z = (available - mu) / sigma;
            Phi = norm_cdf z;
            phi = norm_pdf z;
            expected_sales = mu * Phi + available * (1 - Phi) - sigma * phi;
            expected_sales = max 0 (min available expected_sales);
            expected_stockout = max 0 (mu - expected_sales)
        in (expected_sales, expected_stockout))"

text \<open>\<open>Planner._dynamic_z\<close>: the new knowledge store and the factor.\<close>

definition dynamic_z :: "Knowledge \<Rightarrow> string \<Rightarrow> Knowledge \<times> real" where
  "dynamic_z kb sku =
     (let vol = (case volatility kb sku of None \<Rightarrow> 1 | Some v \<Rightarrow> v);
          z = Z_BASE + VOL_TO_Z_SCALE * vol;
          z = max Z_MIN (min Z_MAX z)
      in (set_safety_z kb sku z, z))"

text \<open>
  \<open>Planner._is_overstock\<close>: the stock position is converted to a double and divided by the
  mean, a double; the quotient is rounded.
\<close>

definition is_overstock :: "string \<Rightarrow> real \<Rightarrow> int \<Rightarrow> bool" where
  "is_overstock sku mean_demand stock_pos =
     (if mean_demand \<le> 1 then False
      else let days_cover = fdiv (round_double (real_of_int stock_pos)) mean_demand
           in days_cover > real_of_int OVERSTOCK_DAYS_OF_COVER)"

text \<open>\<open>self.kb.forecast.get(sku, {}).get('mean', d)\<close>\<close>

definition forecast_mean :: "Knowledge \<Rightarrow> string \<Rightarrow> real \<Rightarrow> real" where
  "forecast_mean kb sku d = (case forecast kb sku of None \<Rightarrow> d | Some f \<Rightarrow> fc_mean f)"

definition forecast_std :: "Knowledge \<Rightarrow> string \<Rightarrow> real \<Rightarrow> real" where
  "forecast_std kb sku d = (case forecast kb sku of None \<Rightarrow> d | Some f \<Rightarrow> fc_std f)"

text \<open>\<open>Planner.candidate_utility\<close>\<close>

definition candidate_utility :: "Knowledge \<Rightarrow> string \<Rightarrow> int \<Rightarrow> error + Candidate" where
  "candidate_utility kb sku q =
     (case product_of sku of
        Inl e \<Rightarrow> Inl e
      | Inr p \<Rightarrow>
          let mean = forecast_mean kb sku 0;
              std = forecast_std kb sku 1;
              lt = max 1 (py_round (real_of_int (fst (lead_time_days p) + snd (lead_time_days p)) / 2));
              rapid = (case anomalies kb sku of None \<Rightarrow> False | Some a \<Rightarrow> an_type a = spike);
              mult = mean * real_of_int lt;
              sigma_lt = std * sqrt (real_of_int lt);
              stockpos = get_stock_position kb sku;
              available = real_of_int (stockpos + q);
              mu = mult * (if rapid then 15 / 10 else 1);
              sigma = sigma_lt;
              es = expected_sales_stockout mu sigma available;
              expected_sales = fst es;
              expected_stockout = snd es;
              revenue = expected_sales * unit_price p;
              ordercost = real_of_int q * unit_cost p + (if q > 0 then order_fixed_cost p else 0);
              leftover = max 0 (available - expected_sales);
              holdingcost = leftover * holding_cost_per_unit_day p * real_of_int lt;
              base_penalty = STOCKOUT_PENALTY_PER_UNIT;
              price_weight = max 1 ((unit_price p / 50) powr (12 / 10));
              current_sl = (case service_level kb sku of None \<Rightarrow> 1 | Some sl \<Rightarrow> sl);
              sl_factor = (if current_sl < SERVICE_LEVEL_TARGET
                           then 1 + (SERVICE_LEVEL_TARGET - current_sl) * 5 else 1);
              stockout_penalty = expected_stockout * base_penalty * price_weight * sl_factor;
              stockout_penalty = min stockout_penalty 50000
          in (case get_last_order_qty kb sku of
                Inl e \<Rightarrow> Inl e
              | Inr prevq \<Rightarrow>
                  let bullwhip_penalty = BULLWHIP_LAMBDA * real_of_int \<bar>q - prevq\<bar>;
                      u = revenue - ordercost - holdingcost - stockout_penalty - bullwhip_penalty
                  in Inr \<lparr>qty = q, utility = u, spend = ordercost\<rparr>))"

text \<open>A list comprehension whose element may raise.\<close>

fun map_result :: "('a \<Rightarrow> error + 'b) \<Rightarrow> 'a list \<Rightarrow> error + 'b list" where
  "map_result f [] = Inr []"
| "map_result f (x # xs) =
     (case f x of
        Inl e \<Rightarrow> Inl e
      | Inr y \<Rightarrow> (case map_result f xs of Inl e \<Rightarrow> Inl e | Inr ys \<Rightarrow> Inr (y # ys)))"

text \<open>The service-level priority adjustment of \<open>Planner.plan\<close> (lines 145 to 169).\<close>

definition shape :: "Knowledge \<Rightarrow> string \<Rightarrow> product \<Rightarrow> Candidate list \<Rightarrow> Candidate list" where
  "shape kb sku p cands =
     (let current_sl = (case service_level kb sku of None \<Rightarrow> 1 | Some sl \<Rightarrow> sl);
          target_sl = SERVICE_LEVEL_TARGET;
          mean_demand = max 1 (forecast_mean kb sku 20);
          priority_weight = max 1 ((unit_price p / 50) powr (13 / 10))
      in if current_sl < target_sl then
           let sl_deficit = target_sl - current_sl
           in map (\<lambda>c. if qty c = 0
                        then c\<lparr>utility := utility c - sl_deficit * mean_demand * 20000 * priority_weight\<rparr>
                        else c\<lparr>utility := utility c
                                 + sl_deficit * real_of_int (qty c) * 500 * priority_weight\<rparr>) cands
         else if current_sl < target_sl + 3 / 100 then
           map (\<lambda>c. if qty c > 0
                     then c\<lparr>utility := utility c + real_of_int (qty c) * 100 * priority_weight\<rparr>
                     else c) cands
         else cands)"

text \<open>The pruning of \<open>Planner.plan\<close> (lines 171 to 177): the best candidate of each rounded spend.\<close>

definition prune_step :: "(int \<times> Candidate) list \<Rightarrow> Candidate \<Rightarrow> (int \<times> Candidate) list" where
  "prune_step best c =
     (let b = py_round (spend c)
      in case map_of best b of
           None \<Rightarrow> AList.update b c best
         | Some old \<Rightarrow> if utility c > utility old then AList.update b c best else best)"

definition prune :: "Candidate list \<Rightarrow> Candidate list" where
  "prune cands = map snd (foldl prune_step [] cands)"

text \<open>The state of the candidate loop of \<open>Planner.plan\<close> (lines 122 to 177).\<close>

record PlanState =
  ps_kb :: Knowledge
  ps_stop_orders :: "(string \<times> int) list"
  ps_sku_cands :: "(string \<times> Candidate list) list"
  ps_blocked :: "string list"

definition zero_candidate :: Candidate where
  "zero_candidate = \<lparr>qty = 0, utility = 0, spend = 0\<rparr>"

text \<open>The body of that loop, for one product.\<close>

definition gen_sku :: "string \<Rightarrow> PlanState \<Rightarrow> error + PlanState" where
  "gen_sku sku st =
     (let kb = ps_kb st in
      if is_blocked kb sku then
        Inr (st\<lparr>ps_blocked := ps_blocked st @ [sku],
                ps_sku_cands := AList.update sku [zero_candidate] (ps_sku_cands st)\<rparr>)
      else
        let mean = forecast_mean kb sku 0;
            stock_pos = get_stock_position kb sku;
            overstock = is_overstock sku mean stock_pos
        in if overstock then
             Inr (st\<lparr>ps_kb := block_orders kb sku STOP_ORDERS_DAYS,
                     ps_stop_orders := ps_stop_orders st @ [(sku, STOP_ORDERS_DAYS)],
                     ps_sku_cands := AList.update sku [zero_candidate] (ps_sku_cands st)\<rparr>)
           else
             (case map_result (candidate_utility kb sku) CANDIDATE_QTYS of
                Inl e \<Rightarrow> Inl e
              | Inr cands \<Rightarrow>
                  (case product_of sku of
                     Inl e \<Rightarrow> Inl e
                   | Inr p \<Rightarrow>
                       Inr (st\<lparr>ps_sku_cands :=
                              AList.update sku (prune (shape kb sku p cands)) (ps_sku_cands st)\<rparr>))))"

text \<open>
  The selection problem handed to the solver (lines 179 to 204): a binary variable for each
  product and each index of its candidate list, the candidates' utilities as the objective,
  one choice per product, and the total spend at most the budget. The solver (PuLP with CBC)
  is outside the program: it is a parameter, and its answer gives each variable a value, or
  none.
\<close>

record Milp =
  milp_cands :: "(string \<times> Candidate list) list"
  milp_budget :: real

type_synonym solution = "string \<times> nat \<Rightarrow> real option"

text \<open>The extraction of the chosen candidate of one product (lines 213 to 218).\<close>

definition selected :: "solution \<Rightarrow> string \<Rightarrow> nat \<Rightarrow> bool" where
  "selected val sku i = (case val (sku, i) of None \<Rightarrow> False | Some v \<Rightarrow> v > 1 / 2)"

definition chosen_of :: "solution \<Rightarrow> string \<Rightarrow> Candidate list \<Rightarrow> error + Candidate" where
  "chosen_of val sku cands =
     (if cands = [] then Inl IndexError
      else case find (selected val sku) [0..<length cands] of
             None \<Rightarrow> Inr (cands ! 0)
           | Some i \<Rightarrow> Inr (cands ! i))"

record OrderEntry =
  oe_qty :: int
  oe_expected_utility :: real
  oe_spend :: real

record Meta =
  budget_limit :: real
  meta_spend :: real
  meta_utility :: real
  blocked_skus :: "string list"

record Plan =
  plan_day :: int
  plan_orders :: "(string \<times> OrderEntry) list"
  stop_orders :: "(string \<times> int) list"
  meta :: Meta

text \<open>The body of the extraction loop (lines 212 to 226): the orders and the two totals.\<close>

definition extract_sku ::
  "solution \<Rightarrow> string \<times> Candidate list \<Rightarrow> (string \<times> OrderEntry) list \<times> real \<times> real
     \<Rightarrow> error + (string \<times> OrderEntry) list \<times> real \<times> real" where
  "extract_sku val entry acc =
     (case chosen_of val (fst entry) (snd entry) of
        Inl e \<Rightarrow> Inl e
      | Inr chosen \<Rightarrow>
          Inr (AList.update (fst entry)
                 \<lparr>oe_qty = qty chosen, oe_expected_utility = utility chosen,
                  oe_spend = spend chosen\<rparr> (fst acc),
               fst (snd acc) + spend chosen,
               snd (snd acc) + utility chosen))"

definition selection_problem :: "PlanState \<Rightarrow> Milp" where
  "selection_problem st = \<lparr>milp_cands = ps_sku_cands st, milp_budget = DAILY_BUDGET_LIMIT\<rparr>"

text \<open>The first two loops of \<open>Planner.plan\<close>: the safety factors, then the candidates.\<close>

definition generate_candidates :: "Knowledge \<Rightarrow> error + PlanState" where
  "generate_candidates kb =
     (let kb1 = fold (\<lambda>sku k. fst (dynamic_z k sku)) (map fst PRODUCTS) kb
      in for_each gen_sku (map fst PRODUCTS)
           \<lparr>ps_kb = kb1, ps_stop_orders = [], ps_sku_cands = [], ps_blocked = []\<rparr>)"

text \<open>\<open>Planner.plan\<close>: the plan and the knowledge store it leaves.\<close>

definition plan :: "(Milp \<Rightarrow> solution) \<Rightarrow> Knowledge \<Rightarrow> error + Plan \<times> Knowledge" where
  "plan solver kb =
     (case generate_candidates kb of
        Inl e \<Rightarrow> Inl e
      | Inr st \<Rightarrow>
          let budget_cap = DAILY_BUDGET_LIMIT;
              val = solver (selection_problem st)
          in (case for_each (extract_sku val) (ps_sku_cands st) ([], 0, 0) of
                Inl e \<Rightarrow> Inl e
              | Inr res \<Rightarrow>
                  Inr (\<lparr>plan_day = day kb, plan_orders = fst res,
                        stop_orders = ps_stop_orders st,
                        meta = \<lparr>budget_limit = budget_cap,
                                meta_spend = round2 (fst (snd res)),
                                meta_utility = round2 (snd (snd res)),
                                blocked_skus = ps_blocked st\<rparr>\<rparr>,
                       ps_kb st)))"

section \<open>environment/environment.py\<close>

record EnvPendingOrder =
  epo_sku :: string
  epo_quantity :: int
  epo_arrival_day :: int
  epo_unit_cost :: real

text \<open>
  The environment, as far as placing an order reads and writes it. The generator of
  \<open>random.Random\<close> is a state and a function \<open>randint\<close> from a state and two bounds to the
  draw and the next state; the function is a parameter.
\<close>

record Environment =
  env_day :: int
  env_lead_time_multiplier :: real
  env_pending_orders :: "EnvPendingOrder list"
  env_rng :: nat

record OrderInfo =
  oi_sku :: string
  oi_qty :: int
  oi_arrival_day :: int
  oi_lead_time :: int
  oi_unit_cost :: real

text \<open>\<open>Environment.place_order\<close>: the details of the order (none for the empty dict).\<close>

definition place_order ::
  "(nat \<Rightarrow> int \<Rightarrow> int \<Rightarrow> int \<times> nat) \<Rightarrow> Environment \<Rightarrow> string \<Rightarrow> int
     \<Rightarrow> error + OrderInfo option \<times> Environment" where
  "place_order randint env sku q =
     (if q \<le> 0 then Inr (None, env)
      else case product_of sku of
             Inl e \<Rightarrow> Inl e
           | Inr p \<Rightarrow>
               let lt_min = fst (lead_time_days p);
                   lt_max = snd (lead_time_days p);
                   adjusted_lt_min = max 1 (py_round (real_of_int lt_min * env_lead_time_multiplier env));
                   adjusted_lt_max = max 1 (py_round (real_of_int lt_max * env_lead_time_multiplier env));
                   draw = randint (env_rng env) adjusted_lt_min adjusted_lt_max;
                   lead_time = fst draw;
                   arrival_day = env_day env + lead_time;
                   order = \<lparr>epo_sku = sku, epo_quantity = q, epo_arrival_day = arrival_day,
                            epo_unit_cost = unit_cost p\<rparr>
               in Inr (Some \<lparr>oi_sku = sku, oi_qty = q, oi_arrival_day = arrival_day,
                              oi_lead_time = lead_time, oi_unit_cost = unit_cost p\<rparr>,
                       env\<lparr>env_pending_orders := env_pending_orders env @ [order],
                           env_rng := snd draw\<rparr>))"

section \<open>automatic\_manager/executor.py\<close>

record Placed =
  pl_sku :: string
  pl_qty :: int
  pl_lead_time :: "OrderInfo option"
  pl_spend :: real

record Actions =
  orders_placed :: "Placed list"
  act_spend :: real

record ExecState =
  ex_kb :: Knowledge
  ex_env :: Environment
  ex_actions :: Actions

text \<open>The body of the loop of \<open>Executor.execute\<close>, for one order of the plan.\<close>

definition execute_order ::
  "(nat \<Rightarrow> int \<Rightarrow> int \<Rightarrow> int \<times> nat) \<Rightarrow> string \<times> OrderEntry \<Rightarrow> ExecState \<Rightarrow> error + ExecState" where
  "execute_order randint entry st =
     (let sku = fst entry; q = oe_qty (snd entry) in
      if q \<le> 0 then Inr st
      else case product_of sku of
             Inl e \<Rightarrow> Inl e
           | Inr p \<Rightarrow>
               let cost = real_of_int q * unit_cost p + order_fixed_cost p in
               if cost > DAILY_BUDGET_LIMIT - daily_budget_spent (ex_kb st) then Inr st
               else (case place_order randint (ex_env st) sku q of
                       Inl e \<Rightarrow> Inl e
                     | Inr placed \<Rightarrow>
                         let kb1 = (ex_kb st)\<lparr>budget := budget (ex_kb st) - cost\<rparr> in
                         (case record_order kb1 sku q cost of
                            Inl e \<Rightarrow> Inl e
                          | Inr kb2 \<Rightarrow>
                              Inr \<lparr>ex_kb = kb2, ex_env = snd placed,
                                   ex_actions =
                                     \<lparr>orders_placed = orders_placed (ex_actions st) @
                                        [\<lparr>pl_sku = sku, pl_qty = q, pl_lead_time = fst placed,
                                          pl_spend = cost\<rparr>],
                                      act_spend = act_spend (ex_actions st) + cost\<rparr>\<rparr>)))"

text \<open>\<open>Executor.execute\<close>: the actions, and the knowledge store and environment it leaves.\<close>

definition execute ::
  "(nat \<Rightarrow> int \<Rightarrow> int \<Rightarrow> int \<times> nat) \<Rightarrow> Knowledge \<Rightarrow> Environment \<Rightarrow> Plan \<Rightarrow> error + ExecState" where
  "execute randint kb env p =
     (case for_each (execute_order randint) (plan_orders p)
             \<lparr>ex_kb = kb, ex_env = env, ex_actions = \<lparr>orders_placed = [], act_spend = 0\<rparr>\<rparr> of
        Inl e \<Rightarrow> Inl e
      | Inr st \<Rightarrow>
          Inr (st\<lparr>ex_actions := (ex_actions st)\<lparr>act_spend := round2 (act_spend (ex_actions st))\<rparr>\<rparr>))"

section \<open>Notions used by the properties\<close>

text \<open>Every product of the catalogue has its list of past orders, as \<open>__init__\<close> leaves it.\<close>

definition orders_ok :: "Knowledge \<Rightarrow> bool" where
  "orders_ok kb = list_all (\<lambda>sku. orders kb sku \<noteq> None) (map fst PRODUCTS)"

text \<open>Every product of the catalogue has its history, as \<open>__init__\<close> leaves it.\<close>

definition history_ok :: "Knowledge \<Rightarrow> bool" where
  "history_ok kb = list_all (\<lambda>sku. history kb sku \<noteq> None) (map fst PRODUCTS)"

text \<open>The value of a variable in the solver's answer, 0 when it has none.\<close>

definition value_of :: "solution \<Rightarrow> string \<Rightarrow> nat \<Rightarrow> real" where
  "value_of val sku i = (case val (sku, i) of None \<Rightarrow> 0 | Some v \<Rightarrow> v)"

text \<open>
  An answer that satisfies the constraints the planner states (lines 186 to 204): every
  variable is 0 or 1, the variables of each product add up to 1, the spend is within the budget.
\<close>

definition feasible :: "Milp \<Rightarrow> solution \<Rightarrow> bool" where
  "feasible prob val =
     (list_all (\<lambda>entry.
          list_all (\<lambda>i. val (fst entry, i) = Some 0 \<or> val (fst entry, i) = Some 1)
            [0..<length (snd entry)]
          \<and> sum_list (map (value_of val (fst entry)) [0..<length (snd entry)]) = 1)
        (milp_cands prob)
      \<and> sum_list (map (\<lambda>entry.
            sum_list (map (\<lambda>i. value_of val (fst entry) i * spend (snd entry ! i))
              [0..<length (snd entry)]))
          (milp_cands prob)) \<le> milp_budget prob)"

text \<open>An answer that marks no candidate of any product: no solution was found.\<close>

definition nothing_selected :: "Milp \<Rightarrow> solution \<Rightarrow> bool" where
  "nothing_selected prob val =
     list_all (\<lambda>entry. list_all (\<lambda>i. \<not> selected val (fst entry) i) [0..<length (snd entry)])
       (milp_cands prob)"

definition solution_ok :: "Milp \<Rightarrow> solution \<Rightarrow> bool" where
  "solution_ok prob val = (feasible prob val \<or> nothing_selected prob val)"

text \<open>What an order of \<open>q\<close> units of a product costs (the spend of its candidate).\<close>

definition order_cost :: "product \<Rightarrow> int \<Rightarrow> real" where
  "order_cost p q = real_of_int q * unit_cost p + (if q > 0 then order_fixed_cost p else 0)"

text \<open>A candidate list that starts with a candidate of quantity 0 and spend 0.\<close>

definition menu_ok :: "Candidate list \<Rightarrow> bool" where
  "menu_ok cs = (cs \<noteq> [] \<and> qty (cs ! 0) = 0 \<and> spend (cs ! 0) = 0)"

text \<open>
  Two states of the candidate loop that differ only in what belongs to the products of \<open>S\<close>:
  their blocks, their candidates, their entries in the two lists.
\<close>

definition frame :: "string set \<Rightarrow> PlanState \<Rightarrow> PlanState \<Rightarrow> bool" where
  "frame S st st' =
     ((\<exists>B. ps_kb st' = (ps_kb st)\<lparr>blocks := B\<rparr> \<and> (\<forall>k. k \<notin> S \<longrightarrow> B k = blocks (ps_kb st) k))
      \<and> (\<forall>k. k \<notin> S \<longrightarrow> map_of (ps_sku_cands st') k = map_of (ps_sku_cands st) k)
      \<and> (\<forall>k. k \<notin> S \<longrightarrow> (k \<in> set (ps_blocked st') \<longleftrightarrow> k \<in> set (ps_blocked st)))
      \<and> (\<forall>k d. k \<notin> S \<longrightarrow>
            ((k, d) \<in> set (ps_stop_orders st') \<longleftrightarrow> (k, d) \<in> set (ps_stop_orders st))))"

text \<open>The candidate that the extraction chooses from a non-empty list.\<close>

definition pick :: "solution \<Rightarrow> string \<Rightarrow> Candidate list \<Rightarrow> Candidate" where
  "pick val sku cands =
     (case find (selected val sku) [0..<length cands] of None \<Rightarrow> cands ! 0 | Some i \<Rightarrow> cands ! i)"

definition entry_of :: "Candidate \<Rightarrow> OrderEntry" where
  "entry_of c = \<lparr>oe_qty = qty c, oe_expected_utility = utility c, oe_spend = spend c\<rparr>"

text \<open>
  A solver to try the properties on: it marks the first candidate of every product when that
  answer is feasible, and nothing otherwise.
\<close>

definition first_choice_solver :: "Milp \<Rightarrow> solution" where
  "first_choice_solver prob =
     (if feasible prob (\<lambda>k. if snd k = 0 then Some 1 else Some 0)
      then (\<lambda>k. if snd k = 0 then Some 1 else Some 0)
      else (\<lambda>k. None))"



text \<open>The state of the candidate loop with another value in the budget field of its store.\<close>

definition with_budget :: "real \<Rightarrow> PlanState \<Rightarrow> PlanState" where
  "with_budget b st = st\<lparr>ps_kb := (ps_kb st)\<lparr>budget := b\<rparr>\<rparr>"

text \<open>
  Two stores to try the properties on: the first product has a forecast mean of 10 and a stock
  position of 500; in the second store it is also blocked until day 0, the current day.
\<close>

definition overstocked_kb :: Knowledge where
  "overstocked_kb =
     Knowledge_init\<lparr>forecast := [''SKU_001'' \<mapsto> \<lparr>fc_mean = 10, fc_std = 2, fc_model = ''moving_average''\<rparr>],
                    stock_levels := (stock_levels Knowledge_init)(''SKU_001'' \<mapsto> 500)\<rparr>"

definition blocked_overstocked_kb :: Knowledge where
  "blocked_overstocked_kb = overstocked_kb\<lparr>blocks := [''SKU_001'' \<mapsto> 0]\<rparr>"

text \<open>
  A store whose first product has the forecast mean 1.3333333333333333, the double next below
  4 / 3, and a stock position of 60: the exact quotient is above 45, the quotient of doubles
  is 45.
\<close>

definition cover_kb :: Knowledge where
  "cover_kb =
     Knowledge_init\<lparr>forecast := [''SKU_001'' \<mapsto>
                      \<lparr>fc_mean = 6004799503160661 / 4503599627370496, fc_std = 2,
                       fc_model = ''moving_average''\<rparr>],
                    stock_levels := (stock_levels Knowledge_init)(''SKU_001'' \<mapsto> 60)\<rparr>"

text \<open>
  A store whose first product has four days of history, each with an effective demand of 20
  (one of them with lost sales).
\<close>

definition constant_history_kb :: Knowledge where
  "constant_history_kb =
     Knowledge_init\<lparr>day := 4, history := (history Knowledge_init)(''SKU_001'' \<mapsto>
       [\<lparr>dr_day = 1, demand = 20, sales = 20, lost_sales = 0\<rparr>,
        \<lparr>dr_day = 2, demand = 20, sales = 20, lost_sales = 0\<rparr>,
        \<lparr>dr_day = 3, demand = 20, sales = 15, lost_sales = 5\<rparr>,
        \<lparr>dr_day = 4, demand = 20, sales = 20, lost_sales = 0\<rparr>])\<rparr>"

text \<open>
  A store whose first product has the effective demands 20, 20, 20, 20, 100, and an anomaly
  stored from an earlier cycle.
\<close>

definition boundary_kb :: Knowledge where
  "boundary_kb =
     Knowledge_init\<lparr>day := 5,
       history := (history Knowledge_init)(''SKU_001'' \<mapsto>
         [\<lparr>dr_day = 1, demand = 20, sales = 20, lost_sales = 0\<rparr>,
          \<lparr>dr_day = 2, demand = 20, sales = 20, lost_sales = 0\<rparr>,
          \<lparr>dr_day = 3, demand = 20, sales = 20, lost_sales = 0\<rparr>,
          \<lparr>dr_day = 4, demand = 20, sales = 20, lost_sales = 0\<rparr>,
          \<lparr>dr_day = 5, demand = 100, sales = 60, lost_sales = 40\<rparr>]),
       anomalies := [''SKU_001'' \<mapsto> \<lparr>an_type = spike, an_z = 3, an_today = 35, an_mean = 20\<rparr>]\<rparr>"

text \<open>A store whose window 8, 8, 8, 8, 9 has a z-score that only rounding puts above 2.\<close>

definition rounding_kb :: Knowledge where
  "rounding_kb =
     Knowledge_init\<lparr>day := 5,
       history := (history Knowledge_init)(''SKU_001'' \<mapsto>
         [\<lparr>dr_day = 1, demand = 8, sales = 8, lost_sales = 0\<rparr>,
          \<lparr>dr_day = 2, demand = 8, sales = 8, lost_sales = 0\<rparr>,
          \<lparr>dr_day = 3, demand = 8, sales = 8, lost_sales = 0\<rparr>,
          \<lparr>dr_day = 4, demand = 8, sales = 8, lost_sales = 0\<rparr>,
          \<lparr>dr_day = 5, demand = 9, sales = 9, lost_sales = 0\<rparr>])\<rparr>"

text \<open>
  What the loop of \<open>analyze\<close> finds for a product from its history: the anomaly and the
  forecast of the window.
\<close>

definition window_anomaly :: "DemandRecord list \<Rightarrow> Anomaly option" where
  "window_anomaly h =
     (let hist = drop (length h - nat FORECAST_WINDOW_DAYS) h
      in case mean_std (map (\<lambda>r. real_of_int (sales r + lost_sales r)) hist) of
           Inl e \<Rightarrow> None
         | Inr ms \<Rightarrow> detect_anomaly hist (fst ms) (snd ms) ANOMALY_Z_THRESHOLD)"

definition window_forecast :: "DemandRecord list \<Rightarrow> real \<times> real" where
  "window_forecast h =
     (case mean_std (map (\<lambda>r. real_of_int (sales r + lost_sales r))
             (drop (length h - nat FORECAST_WINDOW_DAYS) h)) of
        Inl e \<Rightarrow> (0, 0)
      | Inr ms \<Rightarrow> ms)"

text \<open>
  A plan that orders 50 units of each of the first two products, 27550 and 17545 in spend,
  and an environment on day 0.
\<close>

definition over_budget_plan :: Plan where
  "over_budget_plan =
     \<lparr>plan_day = 0,
      plan_orders =
        [(''SKU_001'', \<lparr>oe_qty = 50, oe_expected_utility = 0, oe_spend = 27550\<rparr>),
         (''SKU_002'', \<lparr>oe_qty = 50, oe_expected_utility = 0, oe_spend = 17545\<rparr>)],
      stop_orders = [],
      meta = \<lparr>budget_limit = 30000, meta_spend = 45095, meta_utility = 0, blocked_skus = []\<rparr>\<rparr>"

definition start_env :: Environment where
  "start_env = \<lparr>env_day = 0, env_lead_time_multiplier = 1, env_pending_orders = [], env_rng = 0\<rparr>"

text \<open>
  The coefficients of the series of \<open>erf\<close>, and the power series with these coefficients:
  \<open>erf x\<close> is \<open>2 / sqrt pi * x * erf_series (x\<^sup>2)\<close>.
\<close>

definition erf_coeff :: "nat \<Rightarrow> real" where
  "erf_coeff n = (- 1) ^ n / (fact n * of_nat (2 * n + 1))"

definition erf_series :: "real \<Rightarrow> real" where
  "erf_series t = (\<Sum>n. erf_coeff n * t ^ n)"

section \<open>Properties\<close>

subsection \<open>Rounding\<close>

lemma py_round_of_int: "py_round (of_int n) = n"
  by (simp add: py_round_def)





lemma round2_zero: "round2 0 = 0"
  by (simp add: round2_def py_round_def)

lemma round2_int: "round2 (of_int n) = of_int n"
proof -
  have "of_int n * (100 :: real) = of_int (n * 100)" by simp
  then have "py_round (of_int n * 100) = n * 100"
    by (simp only: py_round_of_int)
  then show ?thesis by (simp add: round2_def)
qed

text \<open>The rounding of doubles: the value on a binade, and that integers below 2 to the power 53 are doubles.\<close>

lemma round_double_eval:
  assumes "2 powr real_of_int e \<le> \<bar>x\<bar>" "\<bar>x\<bar> < 2 powr real_of_int (e + 1)" "- 1022 \<le> e"
  shows "round_double x =
           real_of_int (py_round (x / 2 powr real_of_int (e - 52))) * 2 powr real_of_int (e - 52)"
proof -
  have pos: "0 < \<bar>x\<bar>" using assms(1) by (smt (verit) powr_gt_zero)
  have "\<lfloor>log 2 \<bar>x\<bar>\<rfloor> = e"
    using assms(1,2) pos by (subst floor_log_eq_powr_iff) (simp_all add: add.commute)
  then show ?thesis using pos assms(3) by (simp add: round_double_def Let_def max_def)
qed

lemma round_double_int:
  assumes "\<bar>n\<bar> < 2 ^ 53"
  shows "round_double (real_of_int n) = real_of_int n"
proof (cases "n = 0")
  case True
  then show ?thesis by (simp add: round_double_def)
next
  case False
  define x where "x = \<bar>real_of_int n\<bar>"
  define e where "e = \<lfloor>log 2 x\<rfloor>"
  have x1: "1 \<le> x" using False by (simp add: x_def)
  have x53: "x < 2 ^ 53"
  proof -
    have "real_of_int \<bar>n\<bar> < real_of_int (2 ^ 53)" using assms by (simp only: of_int_less_iff)
    then show ?thesis by (simp add: x_def)
  qed
  have e0: "0 \<le> e" using x1 by (simp add: e_def)
  have "log 2 x < 53"
    using x1 x53 by (subst log_less_iff) (simp_all add: powr_numeral)
  then have e52: "e \<le> 52" unfolding e_def by (simp add: floor_le_iff)
  define k where "k = nat (52 - e)"
  have u: "2 powr real_of_int (e - 52) = 1 / 2 ^ k"
  proof -
    have "(2 :: real) powr real_of_int (e - 52) =
        (if e - 52 \<ge> 0 then 2 ^ nat (e - 52) else inverse (2 ^ nat (- (e - 52))))"
      by (rule powr_real_of_int) simp
    then show ?thesis using e52 by (cases "e = 52") (simp_all add: k_def inverse_eq_divide)
  qed
  have q: "real_of_int n / (1 / 2 ^ k) = real_of_int (n * 2 ^ k)" by simp
  have "round_double (real_of_int n) =
          real_of_int (py_round (real_of_int n / 2 powr real_of_int (e - 52))) * 2 powr real_of_int (e - 52)"
  proof -
    have m: "max \<lfloor>log 2 \<bar>real_of_int n\<bar>\<rfloor> (- 1022) = e"
      using e0 by (simp add: e_def x_def max_def)
    have nz: "real_of_int n \<noteq> 0" using False by simp
    show ?thesis unfolding round_double_def Let_def m using nz by (simp only: if_False)
  qed
  also have "\<dots> = real_of_int (n * 2 ^ k) * (1 / 2 ^ k)"
    unfolding u q py_round_of_int ..
  also have "\<dots> = real_of_int n" by simp
  finally show ?thesis .
qed

lemma round_double_numeral [simp]:
  "round_double 0 = 0" "round_double 1 = 1" "round_double 2 = 2" "round_double 3 = 3"
  "round_double 5 = 5" "round_double 20 = 20" "round_double 32 = 32" "round_double 36 = 36"
  "round_double 50 = 50" "round_double 60 = 60" "round_double 64 = 64" "round_double 500 = 500"
  using round_double_int[of 0] round_double_int[of 1] round_double_int[of 2] round_double_int[of 3]
    round_double_int[of 5] round_double_int[of 20] round_double_int[of 32] round_double_int[of 36]
    round_double_int[of 50] round_double_int[of 60] round_double_int[of 64] round_double_int[of 500]
  by simp_all

subsection \<open>Association lists, loops and the catalogue\<close>

lemma update_fresh: "k \<notin> fst ` set al \<Longrightarrow> AList.update k v al = al @ [(k, v)]"
  by (induction al) auto

lemma map_of_update_other: "k' \<noteq> k \<Longrightarrow> map_of (AList.update k v al) k' = map_of al k'"
  by (simp add: update_conv')

lemma map_of_update_same: "map_of (AList.update k v al) k = Some v"
  by (simp add: update_conv')

lemma map_of_entries:
  "distinct (map fst es) \<Longrightarrow> (k, v) \<in> set es \<Longrightarrow>
   map_of (map (\<lambda>e. (fst e, g e)) es) k = Some (g (k, v))"
  by (induction es) (auto simp: rev_image_eqI)

lemma map_of_keys:
  "k \<in> set (map fst es) \<Longrightarrow> \<exists>v. map_of es k = Some v \<and> (k, v) \<in> set es"
  by (induction es) auto

lemma keys_PRODUCTS: "map fst PRODUCTS = [''SKU_001'', ''SKU_002'', ''SKU_003'', ''SKU_004'']"
  by (simp add: PRODUCTS_def)

lemma distinct_PRODUCTS: "distinct (map fst PRODUCTS)"
  by (simp add: keys_PRODUCTS)

lemma for_each_append:
  "for_each f (xs @ ys) s = (case for_each f xs s of Inl e \<Rightarrow> Inl e | Inr s' \<Rightarrow> for_each f ys s')"
  by (induction xs arbitrary: s) (auto split: sum.splits)

lemma map_result_Inr:
  "map_result f xs = Inr ys \<Longrightarrow> list_all2 (\<lambda>x y. f x = Inr y) xs ys"
  by (induction xs arbitrary: ys) (auto split: sum.splits)

lemma map_result_total:
  "(\<And>x. x \<in> set xs \<Longrightarrow> \<exists>y. f x = Inr y) \<Longrightarrow> \<exists>ys. map_result f xs = Inr ys"
  by (induction xs) (fastforce split: sum.splits)+

subsection \<open>The estimator\<close>

lemma floor_std_gt: "1 / 10 ^ 6 < max 1 (\<bar>m\<bar> * (25 / 100))" for m :: real
  by (simp add: max_def)

lemma guarded_std_gt: "1 / 10 ^ 6 < (if v > 1 / 10 ^ 6 then v else max 1 (\<bar>m\<bar> * (25 / 100)))"
  for v m :: real
  using floor_std_gt[of m] by (simp del: max.bounded_iff)

lemma mean_std_total: "\<exists>m s. mean_std xs = Inr (m, s) \<and> 1 / 10 ^ 6 < s"
proof -
  consider "xs = []" | "length xs = 1" | "xs \<noteq> []" "length xs \<noteq> 1" by blast
  then show ?thesis
  proof cases
    case 1
    then show ?thesis by (simp add: mean_std_def)
  next
    case 2
    then have "mean_std xs = Inr (xs ! 0, max 1 (\<bar>xs ! 0\<bar> * (25 / 100)))"
      by (auto simp: mean_std_def)
    with floor_std_gt[of "xs ! 0"] show ?thesis by blast
  next
    case 3
    obtain m where m: "statistics_mean xs = Inr m"
      using 3 by (simp add: statistics_mean_def)
    obtain v where v: "statistics_pstdev xs = Inr v"
      using 3 by (simp add: statistics_pstdev_def Let_def)
    have "mean_std xs = Inr (m, if v > 1 / 10 ^ 6 then v else max 1 (\<bar>m\<bar> * (25 / 100)))"
      using 3 m v by (simp add: mean_std_def)
    with guarded_std_gt[of v m] show ?thesis by blast
  qed
qed

lemma mean_std_low:
  assumes "1 < length xs" "statistics_pstdev xs = Inr s" "s < 1 / 10 ^ 6"
  shows "\<exists>m. statistics_mean xs = Inr m \<and> mean_std xs = Inr (m, max 1 (25 / 100 * \<bar>m\<bar>))"
proof -
  from assms(1) have ne: "xs \<noteq> []" "length xs \<noteq> 1" by auto
  then obtain m where m: "statistics_mean xs = Inr m" by (simp add: statistics_mean_def)
  have "mean_std xs = Inr (m, max 1 (25 / 100 * \<bar>m\<bar>))"
    using ne m assms(2,3) by (simp add: mean_std_def mult.commute)
  with m show ?thesis by blast
qed

lemma pstdev_total: "xs \<noteq> [] \<Longrightarrow> \<exists>v. statistics_pstdev xs = Inr v"
  by (simp add: statistics_pstdev_def Let_def)

lemma constant_history_example:
  "\<exists>kb' res'. analyze_sku ''SKU_001'' (constant_history_kb, res) = Inr (kb', res')
     \<and> forecast kb' ''SKU_001'' = Some \<lparr>fc_mean = 20, fc_std = 5, fc_model = ''moving_average''\<rparr>
     \<and> anomalies kb' ''SKU_001'' = None \<and> res' = res"
  by (simp add: analyze_sku_def constant_history_kb_def get_recent_history_def
        FORECAST_WINDOW_DAYS_def mean_std_def statistics_mean_def statistics_pstdev_def
        store_forecast_def store_volatility_def store_service_level_def store_anomaly_def
        detect_anomaly_def z_score_def fsub_def fdiv_def ANOMALY_Z_THRESHOLD_def Let_def)

text \<open>
  C7. \<open>_mean_std\<close> gives (0, 1) on an empty window and (v, max 1 (0.25 |v|)) on a single
  sample; on a longer window whose population deviation is below 1e-6 the deviation it returns
  is max 1 (0.25 |mean|). The history 20, 20, 20, 20 gives mean 20 and deviation 5, the z-score
  of 20 is then 0, and the analysis of such a history stores that forecast and no anomaly. The
  deviation returned is positive in every case.
\<close>

theorem mean_std_floor:
  "mean_std [] = Inr (0, 1)
   \<and> mean_std [v] = Inr (v, max 1 (25 / 100 * \<bar>v\<bar>))
   \<and> (1 < length xs \<and> statistics_pstdev xs = Inr s \<and> s < 1 / 10 ^ 6 \<longrightarrow>
        (\<exists>m. statistics_mean xs = Inr m \<and> mean_std xs = Inr (m, max 1 (25 / 100 * \<bar>m\<bar>))))
   \<and> mean_std [20, 20, 20, 20] = Inr (20, 5)
   \<and> z_score 20 20 5 = 0
   \<and> (\<exists>kb' res'. analyze_sku ''SKU_001'' (constant_history_kb, res) = Inr (kb', res')
        \<and> forecast kb' ''SKU_001'' = Some \<lparr>fc_mean = 20, fc_std = 5, fc_model = ''moving_average''\<rparr>
        \<and> anomalies kb' ''SKU_001'' = None \<and> res' = res)
   \<and> (\<exists>m s. mean_std xs = Inr (m, s) \<and> 0 < s)"
proof -
  have a: "mean_std [] = Inr (0, 1)" by (simp add: mean_std_def)
  have b: "mean_std [v] = Inr (v, max 1 (25 / 100 * \<bar>v\<bar>))" by (simp add: mean_std_def mult.commute)
  have c: "mean_std [20, 20, 20, 20] = Inr (20, 5)"
    by (simp add: mean_std_def statistics_mean_def statistics_pstdev_def)
  have d: "z_score 20 20 5 = 0" by (simp add: z_score_def fsub_def fdiv_def)
  obtain m0 s0 where "mean_std xs = Inr (m0, s0)" "1 / 10 ^ 6 < s0" using mean_std_total by blast
  moreover have "(0::real) < 1 / 10 ^ 6" by simp
  ultimately have e: "\<exists>m s. mean_std xs = Inr (m, s) \<and> 0 < s" by (metis less_trans)
  have f: "1 < length xs \<and> statistics_pstdev xs = Inr s \<and> s < 1 / 10 ^ 6 \<longrightarrow>
        (\<exists>m. statistics_mean xs = Inr m \<and> mean_std xs = Inr (m, max 1 (25 / 100 * \<bar>m\<bar>)))"
    using mean_std_low[of xs s] by blast
  note g = constant_history_example[of res]
  show ?thesis by (intro conjI; fact)
qed

theorem mean_std_floor_witness:
  "1 < length [3, 3 :: real] \<and> statistics_pstdev [3, 3] = Inr 0 \<and> (0 :: real) < 1 / 10 ^ 6
   \<and> statistics_mean [3, 3] = Inr 3 \<and> mean_std [3, 3] = Inr (3, 1)
   \<and> mean_std [7] = Inr (7, 7 / 4)"
proof -
  have h: "1 < length [3, 3 :: real]" "statistics_pstdev [3, 3] = Inr 0" "(0 :: real) < 1 / 10 ^ 6"
    by (simp_all add: statistics_pstdev_def)
  have m: "statistics_mean [3, 3] = Inr 3" by (simp add: statistics_mean_def)
  from mean_std_floor[of 7 "[3, 3]" 0] h m show ?thesis by simp
qed

subsection \<open>The anomaly detector\<close>

lemma history_okD: "history_ok kb \<Longrightarrow> sku \<in> set (map fst PRODUCTS) \<Longrightarrow> history kb sku \<noteq> None"
  unfolding history_ok_def list_all_iff by blast

lemma analyze_sku_step:
  assumes "history kb sku = Some h"
  shows "\<exists>kb' res'. analyze_sku sku (kb, res) = Inr (kb', res')
     \<and> history kb' = history kb
     \<and> anomalies kb' = (anomalies kb)(sku := window_anomaly h)
     \<and> (\<exists>m s. window_forecast h = (m, s)
           \<and> forecast kb' = (forecast kb)(sku \<mapsto> \<lparr>fc_mean = m, fc_std = s, fc_model = ''moving_average''\<rparr>))
     \<and> an_anomalies res' = (case window_anomaly h of None \<Rightarrow> an_anomalies res
                              | Some a \<Rightarrow> AList.update sku a (an_anomalies res))"
proof -
  let ?hist = "drop (length h - nat FORECAST_WINDOW_DAYS) h"
  let ?eff = "map (\<lambda>r. real_of_int (sales r + lost_sales r)) ?hist"
  have g: "get_recent_history kb sku FORECAST_WINDOW_DAYS = Inr ?hist"
    using assms by (simp add: get_recent_history_def FORECAST_WINDOW_DAYS_def)
  obtain m s where ms: "mean_std ?eff = Inr (m, s)" using mean_std_total by blast
  obtain vol where vol: "(if length ?eff > 1 then statistics_pstdev ?eff else Inr s) = Inr vol"
  proof (cases "length ?eff > 1")
    case True
    then have "?eff \<noteq> []" by auto
    from pstdev_total[OF this] True that show ?thesis by auto
  next
    case False
    with that show ?thesis by simp
  qed
  have wa: "window_anomaly h = detect_anomaly ?hist m s ANOMALY_Z_THRESHOLD"
    by (simp add: window_anomaly_def ms del: of_int_add)
  have wf: "window_forecast h = (m, s)" by (simp add: window_forecast_def ms del: of_int_add)
  have run: "analyze_sku sku (kb, res) =
      Inr (store_anomaly
             (store_service_level
                (store_volatility (store_forecast kb sku m s ''moving_average'') sku vol) sku
                (if (if ?hist \<noteq> [] then sum_list (map demand ?hist) else 0) > 0
                 then real_of_int (if ?hist \<noteq> [] then sum_list (map sales ?hist) else 0)
                      / real_of_int (if ?hist \<noteq> [] then sum_list (map demand ?hist) else 0)
                 else 1))
             sku (window_anomaly h),
           case window_anomaly h of
             None \<Rightarrow> res
           | Some a \<Rightarrow> res\<lparr>an_anomalies := AList.update sku a (an_anomalies res)\<rparr>)"
    by (simp only: analyze_sku_def fst_conv snd_conv Let_def g sum.case ms prod.case vol wa)
  show ?thesis
    unfolding run
    by (cases "window_anomaly h")
       (simp_all add: wf store_forecast_def store_volatility_def
          store_service_level_def store_anomaly_def)
qed

lemma analyze_loop:
  assumes "distinct skus" "\<forall>k \<in> set skus. history kb k \<noteq> None"
  shows "\<exists>kb' res'. for_each analyze_sku skus (kb, res) = Inr (kb', res')
     \<and> history kb' = history kb
     \<and> (\<forall>k. k \<notin> set skus \<longrightarrow> anomalies kb' k = anomalies kb k
              \<and> map_of (an_anomalies res') k = map_of (an_anomalies res) k
              \<and> forecast kb' k = forecast kb k)
     \<and> (\<forall>k \<in> set skus. \<forall>h. history kb k = Some h \<longrightarrow>
            anomalies kb' k = window_anomaly h
          \<and> map_of (an_anomalies res') k =
              (case window_anomaly h of None \<Rightarrow> map_of (an_anomalies res) k | Some a \<Rightarrow> Some a)
          \<and> (\<exists>m s. window_forecast h = (m, s)
                \<and> forecast kb' k = Some \<lparr>fc_mean = m, fc_std = s, fc_model = ''moving_average''\<rparr>))"
  using assms
proof (induction skus arbitrary: kb res)
  case Nil
  then show ?case by simp
next
  case (Cons x xs)
  from Cons.prems(2) obtain hx where hx: "history kb x = Some hx" by auto
  from analyze_sku_step[OF hx, of res] obtain kb1 res1 where
    s: "analyze_sku x (kb, res) = Inr (kb1, res1)" "history kb1 = history kb"
      "anomalies kb1 = (anomalies kb)(x := window_anomaly hx)"
      "\<exists>m s. window_forecast hx = (m, s)
           \<and> forecast kb1 = (forecast kb)(x \<mapsto> \<lparr>fc_mean = m, fc_std = s, fc_model = ''moving_average''\<rparr>)"
      "an_anomalies res1 = (case window_anomaly hx of None \<Rightarrow> an_anomalies res
                              | Some a \<Rightarrow> AList.update x a (an_anomalies res))"
    by blast
  have r1: "map_of (an_anomalies res1) k = map_of (an_anomalies res) k" if "k \<noteq> x" for k
    using s(5) that by (simp add: update_conv' split: option.splits)
  have r1x: "map_of (an_anomalies res1) x =
      (case window_anomaly hx of None \<Rightarrow> map_of (an_anomalies res) x | Some a \<Rightarrow> Some a)"
    using s(5) by (simp add: update_conv' split: option.splits)
  have "\<exists>kb' res'. for_each analyze_sku xs (kb1, res1) = Inr (kb', res')
     \<and> history kb' = history kb1
     \<and> (\<forall>k. k \<notin> set xs \<longrightarrow> anomalies kb' k = anomalies kb1 k
              \<and> map_of (an_anomalies res') k = map_of (an_anomalies res1) k
              \<and> forecast kb' k = forecast kb1 k)
     \<and> (\<forall>k \<in> set xs. \<forall>h. history kb1 k = Some h \<longrightarrow>
            anomalies kb' k = window_anomaly h
          \<and> map_of (an_anomalies res') k =
              (case window_anomaly h of None \<Rightarrow> map_of (an_anomalies res1) k | Some a \<Rightarrow> Some a)
          \<and> (\<exists>m s. window_forecast h = (m, s)
                \<and> forecast kb' k = Some \<lparr>fc_mean = m, fc_std = s, fc_model = ''moving_average''\<rparr>))"
    using Cons.prems s(2) by (intro Cons.IH) auto
  then obtain kb' res' where
    t: "for_each analyze_sku xs (kb1, res1) = Inr (kb', res')" "history kb' = history kb1"
     "\<forall>k. k \<notin> set xs \<longrightarrow> anomalies kb' k = anomalies kb1 k
              \<and> map_of (an_anomalies res') k = map_of (an_anomalies res1) k
              \<and> forecast kb' k = forecast kb1 k"
     "\<forall>k \<in> set xs. \<forall>h. history kb1 k = Some h \<longrightarrow>
            anomalies kb' k = window_anomaly h
          \<and> map_of (an_anomalies res') k =
              (case window_anomaly h of None \<Rightarrow> map_of (an_anomalies res1) k | Some a \<Rightarrow> Some a)
          \<and> (\<exists>m s. window_forecast h = (m, s)
                \<and> forecast kb' k = Some \<lparr>fc_mean = m, fc_std = s, fc_model = ''moving_average''\<rparr>)"
    by blast
  have xn: "x \<notin> set xs" using Cons.prems(1) by simp
  have a: "for_each analyze_sku (x # xs) (kb, res) = Inr (kb', res')" using s(1) t(1) by simp
  have b: "history kb' = history kb" using s(2) t(2) by simp
  have c: "\<forall>k. k \<notin> set (x # xs) \<longrightarrow> anomalies kb' k = anomalies kb k
              \<and> map_of (an_anomalies res') k = map_of (an_anomalies res) k
              \<and> forecast kb' k = forecast kb k"
    using t(3) s(3,4) r1 by auto
  have d: "anomalies kb' k = window_anomaly h
          \<and> map_of (an_anomalies res') k =
              (case window_anomaly h of None \<Rightarrow> map_of (an_anomalies res) k | Some a \<Rightarrow> Some a)
          \<and> (\<exists>m s. window_forecast h = (m, s)
                \<and> forecast kb' k = Some \<lparr>fc_mean = m, fc_std = s, fc_model = ''moving_average''\<rparr>)"
    if "k \<in> set (x # xs)" "history kb k = Some h" for k h
  proof (cases "k = x")
    case True
    with that(2) hx have hh: "h = hx" by simp
    from t(3) xn have "anomalies kb' x = anomalies kb1 x"
      "map_of (an_anomalies res') x = map_of (an_anomalies res1) x"
      "forecast kb' x = forecast kb1 x" by auto
    with s(3,4) r1x True hh show ?thesis by auto
  next
    case False
    with that(1) have kx: "k \<in> set xs" by simp
    from that(2) s(2) have "history kb1 k = Some h" by simp
    from t(4)[rule_format, OF kx this] r1[OF False] show ?thesis by (simp split: option.splits)
  qed
  from a b c d show ?case by blast
qed

lemma detect_by_z:
  assumes "hist \<noteq> []" "1 / 10 ^ 6 < s"
  shows "detect_anomaly hist m s t =
     (let today = real_of_int (sales (last hist) + lost_sales (last hist));
          z = fdiv (fsub today m) (max s (1 / 10 ^ 6))
      in if t < z then Some \<lparr>an_type = spike, an_z = z, an_today = today, an_mean = m\<rparr>
         else if z < - t then Some \<lparr>an_type = drop_t, an_z = z, an_today = today, an_mean = m\<rparr>
         else None)"
proof -
  have "max s (1 / 10 ^ 6) = s" using assms(2) by simp
  then show ?thesis
    using assms by (simp add: detect_anomaly_def z_score_def Let_def del: of_int_add)
qed

text \<open>
  C6. For a product with a non-empty history, with z = (today - mean) / max std 1e-6 in
  the arithmetic of doubles, on the forecast of its window (the mean and the deviation as
  \<open>statistics\<close> rounds them): \<open>analyze\<close> reports a spike exactly when z is above the
  threshold, a drop exactly when z is below minus the threshold, and otherwise (z equal to
  either bound included) reports nothing and leaves no anomaly stored for the product,
  whatever was stored before. What is stored is what is reported.
\<close>

theorem anomaly_thresholds:
  assumes "history_ok kb" "sku \<in> set (map fst PRODUCTS)"
    and "history kb sku = Some h" "h \<noteq> []"
    and "mean_std (map (\<lambda>r. real_of_int (sales r + lost_sales r))
           (drop (length h - nat FORECAST_WINDOW_DAYS) h)) = Inr (m, s)"
    and "today = real_of_int (sales (last h) + lost_sales (last h))"
    and "z = fdiv (fsub today m) (max s (1 / 10 ^ 6))"
  shows "\<exists>kb' res. analyze kb = Inr (kb', res)
     \<and> forecast kb' sku = Some \<lparr>fc_mean = m, fc_std = s, fc_model = ''moving_average''\<rparr>
     \<and> anomalies kb' sku = map_of (an_anomalies res) sku
     \<and> (ANOMALY_Z_THRESHOLD < z \<longleftrightarrow>
          map_of (an_anomalies res) sku =
            Some \<lparr>an_type = spike, an_z = z, an_today = today, an_mean = m\<rparr>)
     \<and> (z < - ANOMALY_Z_THRESHOLD \<longleftrightarrow>
          map_of (an_anomalies res) sku =
            Some \<lparr>an_type = drop_t, an_z = z, an_today = today, an_mean = m\<rparr>)
     \<and> (- ANOMALY_Z_THRESHOLD \<le> z \<and> z \<le> ANOMALY_Z_THRESHOLD \<longleftrightarrow>
          map_of (an_anomalies res) sku = None \<and> anomalies kb' sku = None)"
proof -
  let ?hist = "drop (length h - nat FORECAST_WINDOW_DAYS) h"
  have lt: "length h - nat FORECAST_WINDOW_DAYS < length h"
    using assms(4) by (cases h) (simp_all add: FORECAST_WINDOW_DAYS_def)
  have hist: "?hist \<noteq> []" "last ?hist = last h"
    using lt by (simp_all add: last_drop)
  have s: "1 / 10 ^ 6 < s" using mean_std_total[of "map (\<lambda>r. real_of_int (sales r + lost_sales r)) ?hist"] assms(5)
    by auto
  have wa: "window_anomaly h =
      (if ANOMALY_Z_THRESHOLD < z then Some \<lparr>an_type = spike, an_z = z, an_today = today, an_mean = m\<rparr>
       else if z < - ANOMALY_Z_THRESHOLD then
         Some \<lparr>an_type = drop_t, an_z = z, an_today = today, an_mean = m\<rparr>
       else None)"
    unfolding window_anomaly_def Let_def assms(5) sum.case fst_conv snd_conv
      detect_by_z[OF hist(1) s] hist(2) assms(6)[symmetric] assms(7)[symmetric] ..
  have wf: "window_forecast h = (m, s)"
    unfolding window_forecast_def assms(5) by simp
  have ok: "\<forall>k \<in> set (map fst PRODUCTS). history kb k \<noteq> None"
    using assms(1) history_okD by blast
  from analyze_loop[OF distinct_PRODUCTS ok, of "\<lparr>an_day = day kb, an_anomalies = []\<rparr>"]
  obtain kb' res where
    r: "analyze kb = Inr (kb', res)"
     "\<forall>k \<in> set (map fst PRODUCTS). \<forall>h. history kb k = Some h \<longrightarrow>
            anomalies kb' k = window_anomaly h
          \<and> map_of (an_anomalies res) k =
              (case window_anomaly h of None \<Rightarrow> map_of (an_anomalies \<lparr>an_day = day kb, an_anomalies = []\<rparr>) k | Some a \<Rightarrow> Some a)
          \<and> (\<exists>m s. window_forecast h = (m, s)
                \<and> forecast kb' k = Some \<lparr>fc_mean = m, fc_std = s, fc_model = ''moving_average''\<rparr>)"
    unfolding analyze_def by blast
  from r(2)[rule_format, OF assms(2,3)] wf
  have f: "anomalies kb' sku = window_anomaly h"
    "map_of (an_anomalies res) sku = window_anomaly h"
    "forecast kb' sku = Some \<lparr>fc_mean = m, fc_std = s, fc_model = ''moving_average''\<rparr>"
    by (auto split: option.splits)
  have t: "0 < ANOMALY_Z_THRESHOLD" by (simp add: ANOMALY_Z_THRESHOLD_def)
  show ?thesis
    using r(1) f t unfolding wa by (auto split: if_splits)
qed

lemma sqrt_1024: "sqrt 1024 = 32"
  by (rule real_sqrt_unique) simp_all

lemma sqrt_4_25: "sqrt (4 / 25) = 2 / 5"
  by (rule real_sqrt_unique) (simp_all add: power2_eq_square)

lemma history_ok_boundary: "history_ok boundary_kb"
  by (simp add: history_ok_def boundary_kb_def Knowledge_init_def PRODUCTS_def)

lemma history_ok_rounding: "history_ok rounding_kb"
  by (simp add: history_ok_def rounding_kb_def Knowledge_init_def PRODUCTS_def)

text \<open>The doubles of the window 8, 8, 8, 8, 9: its mean 8.2, its deviation 0.4, its z-score.\<close>

lemma round_double_mean_89: "round_double (41 / 5) = 2308094809027379 / 281474976710656"
  by (subst round_double_eval[where e = 3]) (simp_all add: py_round_def powr_minus)

lemma round_double_std_89: "round_double (2 / 5) = 3602879701896397 / 9007199254740992"
  by (subst round_double_eval[where e = "- 2"]) (simp_all add: py_round_def powr_minus)

lemma fsub_89: "fsub 9 (2308094809027379 / 281474976710656) = 225179981368525 / 281474976710656"
  unfolding fsub_def
  by (subst round_double_eval[where e = "- 1"]) (simp_all add: py_round_def powr_minus)

lemma fdiv_89:
  "fdiv (225179981368525 / 281474976710656) (3602879701896397 / 9007199254740992)
     = 1125899906842625 / 562949953421312"
  unfolding fdiv_def
  by (subst round_double_eval[where e = 1]) (simp_all add: py_round_def powr_minus)

lemma mean_std_89:
  "mean_std [8, 8, 8, 8, 9]
     = Inr (2308094809027379 / 281474976710656, 3602879701896397 / 9007199254740992)"
  by (simp add: mean_std_def statistics_mean_def statistics_pstdev_def power2_eq_square
        sqrt_4_25 round_double_mean_89 round_double_std_89)

theorem anomaly_thresholds_witness:
  "history_ok boundary_kb \<and> ''SKU_001'' \<in> set (map fst PRODUCTS)
   \<and> mean_std [20, 20, 20, 20, 100] = Inr (36, 32)
   \<and> fdiv (fsub 100 36) (max 32 (1 / 10 ^ 6)) = 2
   \<and> anomalies boundary_kb ''SKU_001'' \<noteq> None
   \<and> (\<exists>kb' res. analyze boundary_kb = Inr (kb', res)
        \<and> forecast kb' ''SKU_001'' = Some \<lparr>fc_mean = 36, fc_std = 32, fc_model = ''moving_average''\<rparr>
        \<and> map_of (an_anomalies res) ''SKU_001'' = None \<and> anomalies kb' ''SKU_001'' = None)
   \<and> history_ok rounding_kb
   \<and> mean_std [8, 8, 8, 8, 9]
        = Inr (2308094809027379 / 281474976710656, 3602879701896397 / 9007199254740992)
   \<and> fdiv (fsub 9 (2308094809027379 / 281474976710656))
            (max (3602879701896397 / 9007199254740992) (1 / 10 ^ 6))
        = 1125899906842625 / 562949953421312
   \<and> ANOMALY_Z_THRESHOLD < 1125899906842625 / 562949953421312
   \<and> (\<exists>kb' res. analyze rounding_kb = Inr (kb', res)
        \<and> map_of (an_anomalies res) ''SKU_001'' =
             Some \<lparr>an_type = spike, an_z = 1125899906842625 / 562949953421312, an_today = 9,
                    an_mean = 2308094809027379 / 281474976710656\<rparr>
        \<and> anomalies kb' ''SKU_001'' = map_of (an_anomalies res) ''SKU_001'')"
proof -
  let ?h = "[\<lparr>dr_day = 1, demand = 20, sales = 20, lost_sales = 0\<rparr>,
          \<lparr>dr_day = 2, demand = 20, sales = 20, lost_sales = 0\<rparr>,
          \<lparr>dr_day = 3, demand = 20, sales = 20, lost_sales = 0\<rparr>,
          \<lparr>dr_day = 4, demand = 20, sales = 20, lost_sales = 0\<rparr>,
          \<lparr>dr_day = 5, demand = 100, sales = 60, lost_sales = 40\<rparr>]"
  have ms: "mean_std [20, 20, 20, 20, 100] = Inr (36, 32)"
    by (simp add: mean_std_def statistics_mean_def statistics_pstdev_def sqrt_1024)
  have h1: "''SKU_001'' \<in> set (map fst PRODUCTS)" by (simp add: keys_PRODUCTS)
  have h2: "history boundary_kb ''SKU_001'' = Some ?h" by (simp add: boundary_kb_def)
  have h3: "?h \<noteq> []" by simp
  have h4: "mean_std (map (\<lambda>r. real_of_int (sales r + lost_sales r))
           (drop (length ?h - nat FORECAST_WINDOW_DAYS) ?h)) = Inr (36, 32)"
    using ms by (simp add: FORECAST_WINDOW_DAYS_def)
  have h5: "(100 :: real) = real_of_int (sales (last ?h) + lost_sales (last ?h))" by simp
  have h6: "(2 :: real) = fdiv (fsub 100 36) (max 32 (1 / 10 ^ 6))"
    by (simp add: fsub_def fdiv_def)
  have a: "anomalies boundary_kb ''SKU_001'' \<noteq> None" by (simp add: boundary_kb_def)
  from anomaly_thresholds[OF history_ok_boundary h1 h2 h3 h4 h5 h6]
  have first: "\<exists>kb' res. analyze boundary_kb = Inr (kb', res)
        \<and> forecast kb' ''SKU_001'' = Some \<lparr>fc_mean = 36, fc_std = 32, fc_model = ''moving_average''\<rparr>
        \<and> map_of (an_anomalies res) ''SKU_001'' = None \<and> anomalies kb' ''SKU_001'' = None"
    by (auto simp: ANOMALY_Z_THRESHOLD_def)
  let ?g = "[\<lparr>dr_day = 1, demand = 8, sales = 8, lost_sales = 0\<rparr>,
          \<lparr>dr_day = 2, demand = 8, sales = 8, lost_sales = 0\<rparr>,
          \<lparr>dr_day = 3, demand = 8, sales = 8, lost_sales = 0\<rparr>,
          \<lparr>dr_day = 4, demand = 8, sales = 8, lost_sales = 0\<rparr>,
          \<lparr>dr_day = 5, demand = 9, sales = 9, lost_sales = 0\<rparr>]"
  let ?m = "2308094809027379 / 281474976710656 :: real"
  let ?s = "3602879701896397 / 9007199254740992 :: real"
  let ?z = "1125899906842625 / 562949953421312 :: real"
  have g2: "history rounding_kb ''SKU_001'' = Some ?g" by (simp add: rounding_kb_def)
  have g3: "?g \<noteq> []" by simp
  have g4: "mean_std (map (\<lambda>r. real_of_int (sales r + lost_sales r))
           (drop (length ?g - nat FORECAST_WINDOW_DAYS) ?g)) = Inr (?m, ?s)"
    using mean_std_89 by (simp add: FORECAST_WINDOW_DAYS_def)
  have g5: "(9 :: real) = real_of_int (sales (last ?g) + lost_sales (last ?g))" by simp
  have mx: "max ?s (1 / 10 ^ 6) = ?s" by simp
  have g6: "?z = fdiv (fsub 9 ?m) (max ?s (1 / 10 ^ 6))"
    unfolding mx fsub_89 fdiv_89 ..
  have zt: "ANOMALY_Z_THRESHOLD < ?z" by (simp add: ANOMALY_Z_THRESHOLD_def)
  from anomaly_thresholds[OF history_ok_rounding h1 g2 g3 g4 g5 g6] zt
  have second: "\<exists>kb' res. analyze rounding_kb = Inr (kb', res)
        \<and> map_of (an_anomalies res) ''SKU_001'' =
             Some \<lparr>an_type = spike, an_z = ?z, an_today = 9, an_mean = ?m\<rparr>
        \<and> anomalies kb' ''SKU_001'' = map_of (an_anomalies res) ''SKU_001''"
    by auto
  show ?thesis
    using history_ok_boundary h1 ms h6[symmetric] a first history_ok_rounding mean_std_89
      g6[symmetric] zt second
    by (intro conjI) assumption+
qed

subsection \<open>The normal distribution\<close>

text \<open>
  The series of \<open>erf\<close> converges everywhere and is differentiated term by term: the derivative
  of \<open>erf\<close> at \<open>x\<close> is \<open>2 / sqrt pi * exp (- x\<^sup>2)\<close>. Hence \<open>norm_cdf\<close> is the antiderivative of
  \<open>norm_pdf\<close> with the value 1 / 2 at 0, and the only one.
\<close>

lemma erf_coeff_summable: "summable (\<lambda>n. erf_coeff n * t ^ n)"
proof (rule summable_comparison_test')
  show "summable (\<lambda>n. inverse (fact n) * \<bar>t\<bar> ^ n)" by (rule summable_exp)
  fix n :: nat
  have "(1 :: real) \<le> of_nat (2 * n + 1)" by simp
  then have "(fact n :: real) * 1 \<le> fact n * of_nat (2 * n + 1)"
    by (intro mult_left_mono) simp_all
  then have "inverse (fact n * real (2 * n + 1)) \<le> inverse (fact n)"
    by (intro le_imp_inverse_le) simp_all
  then have "inverse (fact n * real (2 * n + 1)) * \<bar>t\<bar> ^ n \<le> inverse (fact n) * \<bar>t\<bar> ^ n"
    by (intro mult_right_mono) simp_all
  then show "norm (erf_coeff n * t ^ n) \<le> inverse (fact n) * \<bar>t\<bar> ^ n"
    by (simp add: erf_coeff_def abs_mult power_abs divide_inverse del: of_nat_add of_nat_mult)
qed

lemma erf_series_deriv:
  "DERIV erf_series t :> (\<Sum>n. diffs erf_coeff n * t ^ n)"
  unfolding erf_series_def
  by (rule termdiffs_strong_converges_everywhere) (rule erf_coeff_summable)

lemma erf_series_ode:
  "erf_series t + 2 * t * (\<Sum>n. diffs erf_coeff n * t ^ n) = exp (- t)"
proof -
  let ?h = "erf_series t" and ?d = "\<Sum>n. diffs erf_coeff n * t ^ n"
  let ?f = "\<lambda>n. of_nat n * erf_coeff n * t ^ n"
  have A: "(\<lambda>n. erf_coeff n * t ^ n) sums ?h"
    unfolding erf_series_def by (rule summable_sums) (rule erf_coeff_summable)
  have "summable (\<lambda>n. diffs erf_coeff n * t ^ n)"
    by (rule termdiff_converges_all) (rule erf_coeff_summable)
  then have "(\<lambda>n. diffs erf_coeff n * t ^ n) sums ?d" by (rule summable_sums)
  then have "(\<lambda>n. t * (diffs erf_coeff n * t ^ n)) sums (t * ?d)" by (rule sums_mult)
  then have "(\<lambda>n. ?f (Suc n)) sums (t * ?d)"
    by (simp add: diffs_def mult_ac)
  moreover have "(\<lambda>n. ?f (Suc n)) sums (t * ?d) \<longleftrightarrow> ?f sums (t * ?d + ?f 0)"
    by (rule sums_Suc_iff)
  ultimately have "?f sums (t * ?d + ?f 0)" by blast
  then have B: "?f sums (t * ?d)" by simp
  have "(\<lambda>n. erf_coeff n * t ^ n + 2 * ?f n) sums (?h + 2 * (t * ?d))"
    by (intro sums_add sums_mult A B)
  moreover have "erf_coeff n * t ^ n + 2 * ?f n = (- t) ^ n /\<^sub>R fact n" for n
  proof -
    have "erf_coeff n * t ^ n + 2 * ?f n = (of_nat (2 * n + 1) * erf_coeff n) * t ^ n"
      by (simp add: algebra_simps)
    also have "of_nat (2 * n + 1) * erf_coeff n = (- 1) ^ n / fact n"
      by (simp add: erf_coeff_def del: of_nat_add of_nat_mult)
    also have "(- 1) ^ n / fact n * t ^ n = (- t) ^ n /\<^sub>R fact n"
      by (simp add: power_minus[of t] divide_inverse mult_ac)
    finally show ?thesis .
  qed
  ultimately have "(\<lambda>n. (- t) ^ n /\<^sub>R fact n) sums (?h + 2 * (t * ?d))" by simp
  moreover have "(\<lambda>n. (- t) ^ n /\<^sub>R fact n) sums exp (- t)" by (rule exp_converges)
  ultimately have "?h + 2 * (t * ?d) = exp (- t)" by (rule sums_unique2)
  then show ?thesis by (simp add: mult_ac)
qed

lemma erf_eq_series: "erf x = 2 / sqrt pi * (x * erf_series (x\<^sup>2))"
proof -
  have "(- 1) ^ n * x ^ (2 * n + 1) / (fact n * of_nat (2 * n + 1))
          = x * (erf_coeff n * (x\<^sup>2) ^ n)" for n
    by (simp add: erf_coeff_def power_mult del: of_nat_add of_nat_mult)
  then have "(\<Sum>n. (- 1) ^ n * x ^ (2 * n + 1) / (fact n * of_nat (2 * n + 1)))
          = (\<Sum>n. x * (erf_coeff n * (x\<^sup>2) ^ n))" by (simp only:)
  also have "\<dots> = x * erf_series (x\<^sup>2)"
    unfolding erf_series_def by (rule suminf_mult) (rule erf_coeff_summable)
  finally show ?thesis by (simp only: erf_def)
qed

lemma erf_deriv: "DERIV erf x :> 2 / sqrt pi * exp (- x\<^sup>2)"
proof -
  let ?d = "\<lambda>t. \<Sum>n. diffs erf_coeff n * t ^ n"
  have e: "erf = (\<lambda>x. 2 / sqrt pi * (x * erf_series (x\<^sup>2)))"
    by (rule ext) (rule erf_eq_series)
  have D: "DERIV (\<lambda>x. 2 / sqrt pi * (x * erf_series (x\<^sup>2))) x
          :> 2 / sqrt pi * (1 * erf_series (x\<^sup>2) + x * (?d (x\<^sup>2) * (2 * x)))"
    by (rule derivative_eq_intros DERIV_chain2[OF erf_series_deriv] refl | simp)+
  have eq: "1 * erf_series (x\<^sup>2) + x * (?d (x\<^sup>2) * (2 * x)) = exp (- x\<^sup>2)"
    using erf_series_ode[of "x\<^sup>2"] by (simp add: power2_eq_square mult_ac)
  show ?thesis unfolding e using D unfolding eq .
qed

lemma erf_zero: "erf 0 = 0"
  by (simp add: erf_def)

lemma erf_minus: "erf (- x) = - erf x"
  using erf_eq_series[of x] erf_eq_series[of "- x"] by simp

lemma norm_cdf_deriv: "DERIV norm_cdf z :> norm_pdf z"
proof -
  have i: "DERIV (\<lambda>z. z / sqrt 2) z :> 1 / sqrt 2"
    using DERIV_cdivide[OF DERIV_ident, of "sqrt 2" z] by simp
  have c: "DERIV (\<lambda>z. erf (z / sqrt 2)) z
          :> 2 / sqrt pi * exp (- (z / sqrt 2)\<^sup>2) * (1 / sqrt 2)"
    by (rule DERIV_chain2[OF erf_deriv i])
  have D: "DERIV (\<lambda>z. (1 / 2) * (1 + erf (z / sqrt 2))) z
          :> (1 / 2) * (0 + 2 / sqrt pi * exp (- (z / sqrt 2)\<^sup>2) * (1 / sqrt 2))"
    by (rule DERIV_cmult[OF DERIV_add[OF DERIV_const c]])
  have a: "- (z / sqrt 2)\<^sup>2 = - (1 / 2) * z * z"
    by (simp add: power_divide power2_eq_square)
  have s2: "sqrt 2 * sqrt 2 = (2 :: real)" by simp
  have b: "(1 / 2) * (0 + 2 / sqrt pi * E * (1 / sqrt 2)) = (1 / sqrt (2 * pi)) * E" for E :: real
    by (simp add: real_sqrt_mult mult_ac)
  have eq: "(1 / 2) * (0 + 2 / sqrt pi * exp (- (z / sqrt 2)\<^sup>2) * (1 / sqrt 2)) = norm_pdf z"
    unfolding a b norm_pdf_def ..
  have e: "norm_cdf = (\<lambda>z. (1 / 2) * (1 + erf (z / sqrt 2)))"
    by (rule ext) (simp add: norm_cdf_def)
  show ?thesis unfolding e using D unfolding eq .
qed

lemma norm_cdf_zero: "norm_cdf 0 = 1 / 2"
  by (simp add: norm_cdf_def erf_zero)

lemma norm_cdf_minus: "norm_cdf (- z) = 1 - norm_cdf z"
  by (simp add: norm_cdf_def erf_minus field_simps)

lemma norm_cdf_unique:
  assumes "\<And>x. DERIV F x :> norm_pdf x" "F 0 = 1 / 2"
  shows "F z = norm_cdf z"
proof -
  have "DERIV (\<lambda>x. F x - norm_cdf x) x :> 0" for x
    using DERIV_diff[OF assms(1)[of x] norm_cdf_deriv[of x]] by simp
  then have "\<forall>x. DERIV (\<lambda>x. F x - norm_cdf x) x :> 0" by blast
  then have "(\<lambda>x. F x - norm_cdf x) z = (\<lambda>x. F x - norm_cdf x) 0"
    by (rule DERIV_isconst_all)
  then show ?thesis using assms(2) norm_cdf_zero by simp
qed

lemma norm_pdf_eq: "norm_pdf z = exp (- (z\<^sup>2) / 2) / sqrt (2 * pi)"
  by (simp add: norm_pdf_def power2_eq_square)

lemma norm_pdf_zero: "norm_pdf 0 = 1 / sqrt (2 * pi)"
  by (simp add: norm_pdf_def)

lemma norm_pdf_zero_bounds: "0 < 2 / sqrt (2 * pi)" "2 / sqrt (2 * pi) < 50"
proof -
  have "1 < 2 * pi" using pi_ge_two by simp
  then have "sqrt 1 < sqrt (2 * pi)" by (simp only: real_sqrt_less_iff)
  then have g: "1 < sqrt (2 * pi)" by simp
  then show "0 < 2 / sqrt (2 * pi)" by simp
  from g have "2 / sqrt (2 * pi) < 2 / 1" by (intro divide_strict_left_mono) simp_all
  then show "2 / sqrt (2 * pi) < 50" by simp
qed

subsection \<open>Expected sales and stockout\<close>

text \<open>
  C5. For a mean and an available stock that are not negative, \<open>_expected_sales_stockout\<close>
  returns min mu a and max 0 (mu - sales) when sigma is at most 1e-6, and otherwise the clamped
  newsvendor expression with z' = (a - mu) / sigma and max 0 (mu - sales). In that expression
  \<open>norm_pdf\<close> is the density \<open>exp (- z\<^sup>2 / 2) / sqrt (2 * pi)\<close> of the standard normal distribution
  and \<open>norm_cdf\<close> is its distribution function: the antiderivative of the density that is
  1 / 2 at 0.
\<close>

theorem expected_sales_stockout_spec:
  assumes "0 \<le> mu" "0 \<le> a"
  shows "expected_sales_stockout mu sigma a =
     (if sigma \<le> 1 / 10 ^ 6 then (min mu a, max 0 (mu - min mu a))
      else let z' = (a - mu) / sigma;
               es = max 0 (min a (mu * norm_cdf z' + a * (1 - norm_cdf z') - sigma * norm_pdf z'))
           in (es, max 0 (mu - es)))
   \<and> norm_pdf z = exp (- (z\<^sup>2) / 2) / sqrt (2 * pi)
   \<and> (norm_cdf has_real_derivative norm_pdf z) (at z)
   \<and> norm_cdf 0 = 1 / 2
   \<and> norm_cdf (- z) = 1 - norm_cdf z"
proof -
  have "expected_sales_stockout mu sigma a =
     (if sigma \<le> 1 / 10 ^ 6 then (min mu a, max 0 (mu - min mu a))
      else let z' = (a - mu) / sigma;
               es = max 0 (min a (mu * norm_cdf z' + a * (1 - norm_cdf z') - sigma * norm_pdf z'))
           in (es, max 0 (mu - es)))"
    using assms by (simp add: expected_sales_stockout_def Let_def)
  then show ?thesis
    using norm_pdf_eq[of z] norm_cdf_deriv[of z] norm_cdf_zero norm_cdf_minus[of z]
    by (intro conjI) assumption+
qed

theorem expected_sales_stockout_spec_witness:
  "(0 :: real) \<le> 60 \<and> (0 :: real) \<le> 50
   \<and> expected_sales_stockout 60 0 50 = (50, 10)
   \<and> expected_sales_stockout 50 2 50 = (50 - 2 / sqrt (2 * pi), 2 / sqrt (2 * pi))
   \<and> norm_pdf 0 = 1 / sqrt (2 * pi)
   \<and> (norm_cdf has_real_derivative 1 / sqrt (2 * pi)) (at 0)
   \<and> norm_cdf 0 = 1 / 2"
proof -
  note a = expected_sales_stockout_spec[of 60 50 0 0]
  note b = expected_sales_stockout_spec[of 50 50 2 0]
  have 1: "expected_sales_stockout 60 0 50 = (50, 10)" using a by simp
  have 2: "expected_sales_stockout 50 2 50 = (50 - 2 / sqrt (2 * pi), 2 / sqrt (2 * pi))"
  proof -
    have "expected_sales_stockout 50 2 50 =
        (let z' = 0; es = max 0 (min 50 (50 * norm_cdf z' + 50 * (1 - norm_cdf z') - 2 * norm_pdf z'))
         in (es, max 0 (50 - es)))"
      using b by simp
    also have "\<dots> = (max 0 (min 50 (50 - 2 / sqrt (2 * pi))),
                     max 0 (50 - max 0 (min 50 (50 - 2 / sqrt (2 * pi)))))"
      using b by (simp add: Let_def norm_pdf_zero)
    also have "\<dots> = (50 - 2 / sqrt (2 * pi), 2 / sqrt (2 * pi))"
    proof -
      define r where "r = 2 / sqrt (2 * pi)"
      have "0 < r" "r < 50" unfolding r_def by (rule norm_pdf_zero_bounds)+
      then have "(max 0 (min 50 (50 - r)), max 0 (50 - max 0 (min 50 (50 - r)))) = (50 - r, r)"
        by (simp add: max_def min_def)
      then show ?thesis unfolding r_def .
    qed
    finally show ?thesis .
  qed
  have 3: "norm_pdf 0 = 1 / sqrt (2 * pi)" using b by simp
  have 4: "(norm_cdf has_real_derivative 1 / sqrt (2 * pi)) (at 0)" using b 3 by simp
  have 5: "norm_cdf 0 = 1 / 2" using b by simp
  show ?thesis using 1 2 3 4 5 by simp
qed

subsection \<open>The candidates of a product\<close>

lemma prune_fold_distinct:
  "distinct (map (\<lambda>c. py_round (spend c)) cs) \<Longrightarrow>
   (\<forall>c \<in> set cs. py_round (spend c) \<notin> fst ` set best) \<Longrightarrow>
   foldl prune_step best cs = best @ map (\<lambda>c. (py_round (spend c), c)) cs"
proof (induction cs arbitrary: best)
  case Nil then show ?case by simp
next
  case (Cons c cs)
  let ?b = "py_round (spend c)"
  have fresh: "?b \<notin> fst ` set best" using Cons.prems(2) by simp
  then have none: "map_of best ?b = None" by (simp add: map_of_eq_None_iff)
  have step: "prune_step best c = best @ [(?b, c)]"
    by (simp add: prune_step_def Let_def none update_fresh[OF fresh])
  have "foldl prune_step (best @ [(?b, c)]) cs = (best @ [(?b, c)]) @ map (\<lambda>c. (py_round (spend c), c)) cs"
    using Cons.prems by (intro Cons.IH) (auto simp: image_iff rev_image_eqI)
  then show ?case by (simp add: step)
qed

lemma prune_distinct: "distinct (map (\<lambda>c. py_round (spend c)) cs) \<Longrightarrow> prune cs = cs"
  by (simp add: prune_def prune_fold_distinct map_idI comp_def)

lemma cand_fields:
  "candidate_utility kb sku q = Inr c \<Longrightarrow> product_of sku = Inr p \<Longrightarrow>
   qty c = q \<and> spend c = order_cost p q"
  by (auto simp: candidate_utility_def order_cost_def Let_def split: sum.splits)

lemma cand_total:
  "product_of sku = Inr p \<Longrightarrow> orders kb sku \<noteq> None \<Longrightarrow> \<exists>c. candidate_utility kb sku q = Inr c"
  by (auto simp: candidate_utility_def get_last_order_qty_def Let_def split: sum.splits option.splits)

lemma menu_fields:
  assumes "map_result (candidate_utility kb sku) qs = Inr cs" "product_of sku = Inr p"
  shows "map qty cs = qs \<and> map spend cs = map (order_cost p) qs"
proof -
  have "list_all2 (\<lambda>q c. candidate_utility kb sku q = Inr c) qs cs"
    using assms(1) by (rule map_result_Inr)
  then have "list_all2 (\<lambda>q c. qty c = q \<and> spend c = order_cost p q) qs cs"
    by (rule list_all2_mono) (use cand_fields[OF _ assms(2)] in blast)
  then show ?thesis
    by (induction qs cs rule: list_all2_induct) auto
qed

lemma shape_fields: "map qty (shape kb sku p cs) = map qty cs \<and> map spend (shape kb sku p cs) = map spend cs"
  by (simp add: shape_def Let_def)

lemma menu_buckets:
  "(sku, p) \<in> set PRODUCTS \<Longrightarrow> distinct (map (\<lambda>q. py_round (order_cost p q)) CANDIDATE_QTYS)"
  by (auto simp: PRODUCTS_def CANDIDATE_QTYS_def order_cost_def py_round_def)

lemma menu_ok_zero: "menu_ok [zero_candidate]"
  by (simp add: menu_ok_def zero_candidate_def)

lemma menu_ok_nonempty: "menu_ok cs \<Longrightarrow> cs \<noteq> []"
  by (simp add: menu_ok_def)

lemma full_menu:
  assumes "map_result (candidate_utility kb sku) CANDIDATE_QTYS = Inr cands"
    and "product_of sku = Inr p" and "(sku, p) \<in> set PRODUCTS"
  shows "map qty (prune (shape kb sku p cands)) = CANDIDATE_QTYS"
    and "map spend (prune (shape kb sku p cands)) = map (order_cost p) CANDIDATE_QTYS"
proof -
  let ?cs = "shape kb sku p cands"
  have f: "map qty ?cs = CANDIDATE_QTYS" "map spend ?cs = map (order_cost p) CANDIDATE_QTYS"
    using menu_fields[OF assms(1,2)] shape_fields[of kb sku p cands] by simp_all
  have "map (\<lambda>c. py_round (spend c)) ?cs = map py_round (map spend ?cs)" by simp
  also have "\<dots> = map (\<lambda>q. py_round (order_cost p q)) CANDIDATE_QTYS" by (simp only: f map_map comp_def)
  finally have "distinct (map (\<lambda>c. py_round (spend c)) ?cs)"
    using menu_buckets[OF assms(3)] by simp
  then have "prune ?cs = ?cs" by (rule prune_distinct)
  with f show "map qty (prune ?cs) = CANDIDATE_QTYS"
    and "map spend (prune ?cs) = map (order_cost p) CANDIDATE_QTYS" by simp_all
qed

lemma full_menu_ok:
  assumes "map qty cs = CANDIDATE_QTYS" "map spend cs = map (order_cost p) CANDIDATE_QTYS"
  shows "menu_ok cs"
proof -
  from assms(1) obtain c rest where cs: "cs = c # rest" by (cases cs) (auto simp: CANDIDATE_QTYS_def)
  with assms show ?thesis by (simp add: menu_ok_def CANDIDATE_QTYS_def order_cost_def)
qed

lemma gen_blocked:
  "is_blocked (ps_kb st) sku \<Longrightarrow>
   gen_sku sku st = Inr (st\<lparr>ps_blocked := ps_blocked st @ [sku],
                          ps_sku_cands := AList.update sku [zero_candidate] (ps_sku_cands st)\<rparr>)"
  by (simp add: gen_sku_def)

lemma gen_overstock:
  "\<not> is_blocked (ps_kb st) sku \<Longrightarrow>
   is_overstock sku (forecast_mean (ps_kb st) sku 0) (get_stock_position (ps_kb st) sku) \<Longrightarrow>
   gen_sku sku st = Inr (st\<lparr>ps_kb := block_orders (ps_kb st) sku STOP_ORDERS_DAYS,
                     ps_stop_orders := ps_stop_orders st @ [(sku, STOP_ORDERS_DAYS)],
                     ps_sku_cands := AList.update sku [zero_candidate] (ps_sku_cands st)\<rparr>)"
  by (simp add: gen_sku_def)

lemma gen_menu:
  assumes "\<not> is_blocked (ps_kb st) sku"
    and "\<not> is_overstock sku (forecast_mean (ps_kb st) sku 0) (get_stock_position (ps_kb st) sku)"
    and "(sku, p) \<in> set PRODUCTS" and "orders (ps_kb st) sku \<noteq> None"
  shows "\<exists>cs. gen_sku sku st = Inr (st\<lparr>ps_sku_cands := AList.update sku cs (ps_sku_cands st)\<rparr>)
            \<and> map qty cs = CANDIDATE_QTYS \<and> map spend cs = map (order_cost p) CANDIDATE_QTYS"
proof -
  have p: "product_of sku = Inr p"
    using assms(3) distinct_PRODUCTS by (simp add: product_of_def)
  obtain cands where c: "map_result (candidate_utility (ps_kb st) sku) CANDIDATE_QTYS = Inr cands"
    using map_result_total[of CANDIDATE_QTYS "candidate_utility (ps_kb st) sku"] cand_total[OF p assms(4)]
    by blast
  have "gen_sku sku st = Inr (st\<lparr>ps_sku_cands := AList.update sku (prune (shape (ps_kb st) sku p cands)) (ps_sku_cands st)\<rparr>)"
    using assms(1,2) by (simp add: gen_sku_def c p)
  with full_menu[OF c p assms(3)] show ?thesis by blast
qed

lemma gen_step:
  assumes "sku \<in> set (map fst PRODUCTS)" "orders (ps_kb st) sku \<noteq> None"
  shows "\<exists>sx cs. gen_sku sku st = Inr sx \<and> ps_sku_cands sx = AList.update sku cs (ps_sku_cands st)
           \<and> menu_ok cs"
proof -
  from assms(1) obtain p where p: "(sku, p) \<in> set PRODUCTS" by auto
  consider "is_blocked (ps_kb st) sku"
    | "\<not> is_blocked (ps_kb st) sku" "is_overstock sku (forecast_mean (ps_kb st) sku 0) (get_stock_position (ps_kb st) sku)"
    | "\<not> is_blocked (ps_kb st) sku" "\<not> is_overstock sku (forecast_mean (ps_kb st) sku 0) (get_stock_position (ps_kb st) sku)"
    by blast
  then show ?thesis
  proof cases
    case 1
    from gen_blocked[OF 1] menu_ok_zero show ?thesis by auto
  next
    case 2
    from gen_overstock[OF 2] menu_ok_zero show ?thesis by auto
  next
    case 3
    from gen_menu[OF 3 p assms(2)] obtain cs where
      cs: "gen_sku sku st = Inr (st\<lparr>ps_sku_cands := AList.update sku cs (ps_sku_cands st)\<rparr>)"
        "map qty cs = CANDIDATE_QTYS" "map spend cs = map (order_cost p) CANDIDATE_QTYS" by blast
    from cs(1) full_menu_ok[OF cs(2,3)] show ?thesis by auto
  qed
qed

subsection \<open>The candidate loop\<close>

lemma frame_refl: "frame S st st"
  unfolding frame_def by (auto intro: exI[of _ "blocks (ps_kb st)"])

lemma frame_trans:
  assumes "frame S a b" "frame T b c"
  shows "frame (S \<union> T) a c"
proof -
  from assms(1) obtain B where B: "ps_kb b = (ps_kb a)\<lparr>blocks := B\<rparr>" "\<forall>k. k \<notin> S \<longrightarrow> B k = blocks (ps_kb a) k"
    unfolding frame_def by blast
  from assms(2) obtain C where C: "ps_kb c = (ps_kb b)\<lparr>blocks := C\<rparr>" "\<forall>k. k \<notin> T \<longrightarrow> C k = blocks (ps_kb b) k"
    unfolding frame_def by blast
  have "ps_kb c = (ps_kb a)\<lparr>blocks := C\<rparr>" using B(1) C(1) by simp
  moreover have "\<forall>k. k \<notin> S \<union> T \<longrightarrow> C k = blocks (ps_kb a) k" using B C by simp
  ultimately have 1: "\<exists>B. ps_kb c = (ps_kb a)\<lparr>blocks := B\<rparr> \<and> (\<forall>k. k \<notin> S \<union> T \<longrightarrow> B k = blocks (ps_kb a) k)"
    by blast
  show ?thesis
    unfolding frame_def using 1 assms unfolding frame_def by simp
qed

lemma frame_step: "gen_sku x st = Inr sx \<Longrightarrow> frame {x} st sx"
  unfolding frame_def gen_sku_def Let_def block_orders_def
  by (auto split: if_splits sum.splits simp: map_of_update_other
        intro: exI[of _ "blocks (ps_kb st)"] exI[of _ "(blocks (ps_kb st))(x \<mapsto> day (ps_kb st) + max 0 STOP_ORDERS_DAYS)"])

lemma frame_loop: "for_each gen_sku xs st = Inr st' \<Longrightarrow> frame (set xs) st st'"
proof (induction xs arbitrary: st)
  case Nil then show ?case by (simp add: frame_refl)
next
  case (Cons x xs)
  then obtain sx where sx: "gen_sku x st = Inr sx" "for_each gen_sku xs sx = Inr st'"
    by (auto split: sum.splits)
  from frame_trans[OF frame_step[OF sx(1)] Cons.IH[OF sx(2)]] show ?case by simp
qed

lemma frameD:
  assumes "frame S st st'" "k \<notin> S"
  shows "\<exists>B. ps_kb st' = (ps_kb st)\<lparr>blocks := B\<rparr> \<and> B k = blocks (ps_kb st) k"
    and "map_of (ps_sku_cands st') k = map_of (ps_sku_cands st) k"
    and "k \<in> set (ps_blocked st') \<longleftrightarrow> k \<in> set (ps_blocked st)"
    and "(k, d) \<in> set (ps_stop_orders st') \<longleftrightarrow> (k, d) \<in> set (ps_stop_orders st)"
  using assms unfolding frame_def by blast+

lemma frame_orders: "frame S st st' \<Longrightarrow> orders (ps_kb st') = orders (ps_kb st)"
  unfolding frame_def by auto

lemma loop_split:
  assumes "for_each gen_sku skus st = Inr st'" "distinct skus" "sku \<in> set skus"
  shows "\<exists>sa sb. frame (- {sku}) st sa \<and> gen_sku sku sa = Inr sb \<and> frame (- {sku}) sb st'"
proof -
  from assms(3) obtain xs ys where sp: "skus = xs @ sku # ys" by (auto dest: split_list)
  with assms(2) have nin: "sku \<notin> set xs" "sku \<notin> set ys" by auto
  from assms(1) sp obtain sa sb where
    s: "for_each gen_sku xs st = Inr sa" "gen_sku sku sa = Inr sb" "for_each gen_sku ys sb = Inr st'"
    by (auto simp: for_each_append split: sum.splits)
  have "frame (set xs) st sa" "frame (set ys) sb st'" using s frame_loop by blast+
  then have "frame (- {sku}) st sa" "frame (- {sku}) sb st'"
    using nin unfolding frame_def by auto
  with s(2) show ?thesis by blast
qed

lemma orders_okD: "orders_ok kb \<Longrightarrow> sku \<in> set (map fst PRODUCTS) \<Longrightarrow> orders kb sku \<noteq> None"
  unfolding orders_ok_def list_all_iff by blast

lemma gen_loop_run:
  assumes "set skus \<subseteq> set (map fst PRODUCTS)" "\<forall>k \<in> set skus. orders (ps_kb st) k \<noteq> None"
    "distinct skus" "set skus \<inter> fst ` set (ps_sku_cands st) = {}"
    "\<forall>e \<in> set (ps_sku_cands st). menu_ok (snd e)"
  shows "\<exists>st'. for_each gen_sku skus st = Inr st'
           \<and> map fst (ps_sku_cands st') = map fst (ps_sku_cands st) @ skus
           \<and> (\<forall>e \<in> set (ps_sku_cands st'). menu_ok (snd e))"
  using assms
proof (induction skus arbitrary: st)
  case Nil then show ?case by simp
next
  case (Cons x xs)
  from Cons.prems(1,2) have "x \<in> set (map fst PRODUCTS)" "orders (ps_kb st) x \<noteq> None" by auto
  from gen_step[OF this] obtain sx cs where
    sx: "gen_sku x st = Inr sx" "ps_sku_cands sx = AList.update x cs (ps_sku_cands st)" "menu_ok cs"
    by blast
  have fresh: "x \<notin> fst ` set (ps_sku_cands st)" using Cons.prems(4) by auto
  have cands: "ps_sku_cands sx = ps_sku_cands st @ [(x, cs)]"
    using sx(2) update_fresh[OF fresh] by simp
  have ord: "orders (ps_kb sx) = orders (ps_kb st)"
    using frame_orders[OF frame_step[OF sx(1)]] .
  have "\<exists>st'. for_each gen_sku xs sx = Inr st'
           \<and> map fst (ps_sku_cands st') = map fst (ps_sku_cands sx) @ xs
           \<and> (\<forall>e \<in> set (ps_sku_cands st'). menu_ok (snd e))"
  proof (rule Cons.IH)
    show "set xs \<subseteq> set (map fst PRODUCTS)" using Cons.prems(1) by simp
    show "\<forall>k\<in>set xs. orders (ps_kb sx) k \<noteq> None" using Cons.prems(2) ord by simp
    show "distinct xs" using Cons.prems(3) by simp
    show "set xs \<inter> fst ` set (ps_sku_cands sx) = {}" using Cons.prems(3,4) cands by auto
    show "\<forall>e\<in>set (ps_sku_cands sx). menu_ok (snd e)" using Cons.prems(5) cands sx(3) by auto
  qed
  then show ?case using sx(1) cands by auto
qed

lemma dz_fold: "\<exists>z. fold (\<lambda>sku k. fst (dynamic_z k sku)) skus kb = kb\<lparr>safety_z := z\<rparr>"
proof (induction skus arbitrary: kb)
  case Nil
  show ?case by (auto intro: exI[of _ "safety_z kb"])
next
  case (Cons x xs)
  obtain z1 where z1: "fst (dynamic_z kb x) = kb\<lparr>safety_z := z1\<rparr>"
    by (auto simp: dynamic_z_def Let_def set_safety_z_def)
  from Cons.IH[of "kb\<lparr>safety_z := z1\<rparr>"] obtain z where
    "fold (\<lambda>sku k. fst (dynamic_z k sku)) xs (kb\<lparr>safety_z := z1\<rparr>) = kb\<lparr>safety_z := z1, safety_z := z\<rparr>" by auto
  then show ?case using z1 by auto
qed

lemma gen_total:
  assumes "orders_ok kb"
  shows "\<exists>st. generate_candidates kb = Inr st
           \<and> map fst (ps_sku_cands st) = map fst PRODUCTS
           \<and> (\<forall>e \<in> set (ps_sku_cands st). menu_ok (snd e))"
proof -
  obtain z where z: "fold (\<lambda>sku k. fst (dynamic_z k sku)) (map fst PRODUCTS) kb = kb\<lparr>safety_z := z\<rparr>"
    using dz_fold by blast
  let ?st0 = "\<lparr>ps_kb = kb\<lparr>safety_z := z\<rparr>, ps_stop_orders = [], ps_sku_cands = [], ps_blocked = []\<rparr>"
  have "\<exists>st'. for_each gen_sku (map fst PRODUCTS) ?st0 = Inr st'
           \<and> map fst (ps_sku_cands st') = map fst (ps_sku_cands ?st0) @ map fst PRODUCTS
           \<and> (\<forall>e \<in> set (ps_sku_cands st'). menu_ok (snd e))"
    by (rule gen_loop_run) (use assms orders_okD distinct_PRODUCTS in auto)
  then show ?thesis by (simp add: generate_candidates_def z)
qed

lemma gen_kb:
  assumes "generate_candidates kb = Inr st"
  shows "\<exists>z B. ps_kb st = kb\<lparr>safety_z := z, blocks := B\<rparr>"
proof -
  obtain z where z: "fold (\<lambda>sku k. fst (dynamic_z k sku)) (map fst PRODUCTS) kb = kb\<lparr>safety_z := z\<rparr>"
    using dz_fold by blast
  have "for_each gen_sku (map fst PRODUCTS)
      \<lparr>ps_kb = kb\<lparr>safety_z := z\<rparr>, ps_stop_orders = [], ps_sku_cands = [], ps_blocked = []\<rparr> = Inr st"
    using assms by (simp add: generate_candidates_def z)
  from frame_loop[OF this] show ?thesis unfolding frame_def by auto
qed

lemma gen_split:
  assumes "generate_candidates kb = Inr st" "sku \<in> set (map fst PRODUCTS)"
  obtains sa sb z Ba where
    "ps_kb sa = kb\<lparr>safety_z := z, blocks := Ba\<rparr>" "Ba sku = blocks kb sku"
    "sku \<notin> set (ps_blocked sa)" "\<forall>d. (sku, d) \<notin> set (ps_stop_orders sa)"
    "gen_sku sku sa = Inr sb"
    "map_of (ps_sku_cands st) sku = map_of (ps_sku_cands sb) sku"
    "blocks (ps_kb st) sku = blocks (ps_kb sb) sku"
    "sku \<in> set (ps_blocked st) \<longleftrightarrow> sku \<in> set (ps_blocked sb)"
    "\<forall>d. (sku, d) \<in> set (ps_stop_orders st) \<longleftrightarrow> (sku, d) \<in> set (ps_stop_orders sb)"
proof -
  obtain z where z: "fold (\<lambda>sku k. fst (dynamic_z k sku)) (map fst PRODUCTS) kb = kb\<lparr>safety_z := z\<rparr>"
    using dz_fold by blast
  define st0 where "st0 = \<lparr>ps_kb = kb\<lparr>safety_z := z\<rparr>, ps_stop_orders = [], ps_sku_cands = [], ps_blocked = []\<rparr>"
  have run: "for_each gen_sku (map fst PRODUCTS) st0 = Inr st"
    using assms(1) by (simp add: generate_candidates_def z st0_def)
  from loop_split[OF run distinct_PRODUCTS assms(2)] obtain sa sb where
    s: "frame (- {sku}) st0 sa" "gen_sku sku sa = Inr sb" "frame (- {sku}) sb st" by blast
  have nin: "sku \<notin> - {sku}" by simp
  from frameD(1)[OF s(1) nin] obtain Ba where
    "ps_kb sa = (ps_kb st0)\<lparr>blocks := Ba\<rparr>" "Ba sku = blocks (ps_kb st0) sku" by blast
  then have Ba: "ps_kb sa = kb\<lparr>safety_z := z, blocks := Ba\<rparr>" "Ba sku = blocks kb sku"
    by (simp_all add: st0_def)
  have a1: "sku \<notin> set (ps_blocked sa)"
    using frameD(3)[OF s(1) nin] by (simp add: st0_def)
  have a2: "\<forall>d. (sku, d) \<notin> set (ps_stop_orders sa)"
    using frameD(4)[OF s(1) nin] by (simp add: st0_def)
  have b1: "map_of (ps_sku_cands st) sku = map_of (ps_sku_cands sb) sku"
    using frameD(2)[OF s(3) nin] .
  from frameD(1)[OF s(3) nin] obtain Bb where
    "ps_kb st = (ps_kb sb)\<lparr>blocks := Bb\<rparr>" "Bb sku = blocks (ps_kb sb) sku" by blast
  then have b2: "blocks (ps_kb st) sku = blocks (ps_kb sb) sku" by simp
  have b3: "sku \<in> set (ps_blocked st) \<longleftrightarrow> sku \<in> set (ps_blocked sb)"
    using frameD(3)[OF s(3) nin] .
  have b4: "\<forall>d. (sku, d) \<in> set (ps_stop_orders st) \<longleftrightarrow> (sku, d) \<in> set (ps_stop_orders sb)"
    using frameD(4)[OF s(3) nin] by blast
  from that[OF Ba a1 a2 s(2) b1 b2 b3 b4] show thesis .
qed

lemma is_blocked_upd:
  "Ba sku = blocks kb sku \<Longrightarrow> is_blocked (kb\<lparr>safety_z := z, blocks := Ba\<rparr>) sku = is_blocked kb sku"
  by (simp add: is_blocked_def split: option.splits)

lemma overstock_upd:
  "is_overstock sku (forecast_mean (kb\<lparr>safety_z := z, blocks := Ba\<rparr>) sku 0)
      (get_stock_position (kb\<lparr>safety_z := z, blocks := Ba\<rparr>) sku)
   = is_overstock sku (forecast_mean kb sku 0) (get_stock_position kb sku)"
  by (simp add: forecast_mean_def get_stock_position_def get_stock_def)

lemma gen_at_blocked:
  assumes "generate_candidates kb = Inr st" "sku \<in> set (map fst PRODUCTS)" "is_blocked kb sku"
  shows "map_of (ps_sku_cands st) sku = Some [zero_candidate]"
    and "blocks (ps_kb st) sku = blocks kb sku"
    and "sku \<in> set (ps_blocked st)"
    and "(sku, d) \<notin> set (ps_stop_orders st)"
proof -
  obtain sa sb z Ba where
    s: "ps_kb sa = kb\<lparr>safety_z := z, blocks := Ba\<rparr>" "Ba sku = blocks kb sku"
    "sku \<notin> set (ps_blocked sa)" "\<forall>d. (sku, d) \<notin> set (ps_stop_orders sa)"
    "gen_sku sku sa = Inr sb"
    "map_of (ps_sku_cands st) sku = map_of (ps_sku_cands sb) sku"
    "blocks (ps_kb st) sku = blocks (ps_kb sb) sku"
    "sku \<in> set (ps_blocked st) \<longleftrightarrow> sku \<in> set (ps_blocked sb)"
    "\<forall>d. (sku, d) \<in> set (ps_stop_orders st) \<longleftrightarrow> (sku, d) \<in> set (ps_stop_orders sb)"
    by (rule gen_split[OF assms(1,2)])
  have "is_blocked (ps_kb sa) sku" using assms(3) s(1,2) by (simp add: is_blocked_upd)
  from gen_blocked[OF this] s(5)
  have sb: "sb = sa\<lparr>ps_blocked := ps_blocked sa @ [sku],
                     ps_sku_cands := AList.update sku [zero_candidate] (ps_sku_cands sa)\<rparr>" by simp
  show "map_of (ps_sku_cands st) sku = Some [zero_candidate]"
    using s(6) sb by (simp add: map_of_update_same)
  show "blocks (ps_kb st) sku = blocks kb sku" using s(7) sb s(1,2) by simp
  show "sku \<in> set (ps_blocked st)" using s(8) sb by simp
  show "(sku, d) \<notin> set (ps_stop_orders st)" using s(9) sb s(4) by simp
qed

lemma gen_at_overstock:
  assumes "generate_candidates kb = Inr st" "sku \<in> set (map fst PRODUCTS)" "\<not> is_blocked kb sku"
    and "is_overstock sku (forecast_mean kb sku 0) (get_stock_position kb sku)"
  shows "map_of (ps_sku_cands st) sku = Some [zero_candidate]"
    and "blocks (ps_kb st) sku = Some (day kb + STOP_ORDERS_DAYS)"
    and "sku \<notin> set (ps_blocked st)"
    and "(sku, d) \<in> set (ps_stop_orders st) \<longleftrightarrow> d = STOP_ORDERS_DAYS"
proof -
  obtain sa sb z Ba where
    s: "ps_kb sa = kb\<lparr>safety_z := z, blocks := Ba\<rparr>" "Ba sku = blocks kb sku"
    "sku \<notin> set (ps_blocked sa)" "\<forall>d. (sku, d) \<notin> set (ps_stop_orders sa)"
    "gen_sku sku sa = Inr sb"
    "map_of (ps_sku_cands st) sku = map_of (ps_sku_cands sb) sku"
    "blocks (ps_kb st) sku = blocks (ps_kb sb) sku"
    "sku \<in> set (ps_blocked st) \<longleftrightarrow> sku \<in> set (ps_blocked sb)"
    "\<forall>d. (sku, d) \<in> set (ps_stop_orders st) \<longleftrightarrow> (sku, d) \<in> set (ps_stop_orders sb)"
    by (rule gen_split[OF assms(1,2)])
  have nb: "\<not> is_blocked (ps_kb sa) sku" using assms(3) s(1,2) by (simp add: is_blocked_upd)
  have ov: "is_overstock sku (forecast_mean (ps_kb sa) sku 0) (get_stock_position (ps_kb sa) sku)"
    using assms(4) s(1) by (simp add: overstock_upd)
  from gen_overstock[OF nb ov] s(5)
  have sb: "sb = sa\<lparr>ps_kb := block_orders (ps_kb sa) sku STOP_ORDERS_DAYS,
                     ps_stop_orders := ps_stop_orders sa @ [(sku, STOP_ORDERS_DAYS)],
                     ps_sku_cands := AList.update sku [zero_candidate] (ps_sku_cands sa)\<rparr>" by simp
  show "map_of (ps_sku_cands st) sku = Some [zero_candidate]"
    using s(6) sb by (simp add: map_of_update_same)
  show "blocks (ps_kb st) sku = Some (day kb + STOP_ORDERS_DAYS)"
    using s(7) sb s(1) by (simp add: block_orders_def STOP_ORDERS_DAYS_def)
  show "sku \<notin> set (ps_blocked st)" using s(8) sb s(3) by simp
  show "(sku, d) \<in> set (ps_stop_orders st) \<longleftrightarrow> d = STOP_ORDERS_DAYS" using s(9) sb s(4) by auto
qed

lemma gen_at_menu:
  assumes "generate_candidates kb = Inr st" "(sku, p) \<in> set PRODUCTS" "\<not> is_blocked kb sku"
    and "\<not> is_overstock sku (forecast_mean kb sku 0) (get_stock_position kb sku)"
    and "orders kb sku \<noteq> None"
  shows "\<exists>cs. map_of (ps_sku_cands st) sku = Some cs \<and> map qty cs = CANDIDATE_QTYS
            \<and> map spend cs = map (order_cost p) CANDIDATE_QTYS"
    and "blocks (ps_kb st) sku = blocks kb sku"
    and "sku \<notin> set (ps_blocked st)"
    and "(sku, d) \<notin> set (ps_stop_orders st)"
proof -
  have mem: "sku \<in> set (map fst PRODUCTS)" using assms(2) by force
  obtain sa sb z Ba where
    s: "ps_kb sa = kb\<lparr>safety_z := z, blocks := Ba\<rparr>" "Ba sku = blocks kb sku"
    "sku \<notin> set (ps_blocked sa)" "\<forall>d. (sku, d) \<notin> set (ps_stop_orders sa)"
    "gen_sku sku sa = Inr sb"
    "map_of (ps_sku_cands st) sku = map_of (ps_sku_cands sb) sku"
    "blocks (ps_kb st) sku = blocks (ps_kb sb) sku"
    "sku \<in> set (ps_blocked st) \<longleftrightarrow> sku \<in> set (ps_blocked sb)"
    "\<forall>d. (sku, d) \<in> set (ps_stop_orders st) \<longleftrightarrow> (sku, d) \<in> set (ps_stop_orders sb)"
    by (rule gen_split[OF assms(1) mem])
  have nb: "\<not> is_blocked (ps_kb sa) sku" using assms(3) s(1,2) by (simp add: is_blocked_upd)
  have nov: "\<not> is_overstock sku (forecast_mean (ps_kb sa) sku 0) (get_stock_position (ps_kb sa) sku)"
    using assms(4) s(1) by (simp add: overstock_upd)
  have ord: "orders (ps_kb sa) sku \<noteq> None" using assms(5) s(1) by simp
  from gen_menu[OF nb nov assms(2) ord] s(5) obtain cs where
    sb: "sb = sa\<lparr>ps_sku_cands := AList.update sku cs (ps_sku_cands sa)\<rparr>"
    and cs: "map qty cs = CANDIDATE_QTYS" "map spend cs = map (order_cost p) CANDIDATE_QTYS" by auto
  show "\<exists>cs. map_of (ps_sku_cands st) sku = Some cs \<and> map qty cs = CANDIDATE_QTYS
            \<and> map spend cs = map (order_cost p) CANDIDATE_QTYS"
    using s(6) sb cs by (auto simp: map_of_update_same)
  show "blocks (ps_kb st) sku = blocks kb sku" using s(7) sb s(1,2) by simp
  show "sku \<notin> set (ps_blocked st)" using s(8) sb s(3) by simp
  show "(sku, d) \<notin> set (ps_stop_orders st)" using s(9) sb s(4) by simp
qed

subsection \<open>The extraction\<close>

lemma chosen_of_pick: "cands \<noteq> [] \<Longrightarrow> chosen_of val sku cands = Inr (pick val sku cands)"
  by (simp add: chosen_of_def pick_def split: option.splits)

lemma pick_mem: "cands \<noteq> [] \<Longrightarrow> pick val sku cands \<in> set cands"
  by (auto simp: pick_def find_Some_iff split: option.splits)

lemma pick_none:
  "list_all (\<lambda>i. \<not> selected val sku i) [0..<length cands] \<Longrightarrow> pick val sku cands = cands ! 0"
  by (auto simp: pick_def find_Some_iff list_all_iff split: option.splits)

lemma extract_loop:
  assumes "\<forall>e \<in> set es. snd e \<noteq> []" "distinct (map fst es)" "set (map fst es) \<inter> fst ` set os = {}"
  shows "for_each (extract_sku val) es (os, ts, tu) =
           Inr (os @ map (\<lambda>e. (fst e, entry_of (pick val (fst e) (snd e)))) es,
                ts + sum_list (map (\<lambda>e. spend (pick val (fst e) (snd e))) es),
                tu + sum_list (map (\<lambda>e. utility (pick val (fst e) (snd e))) es))"
  using assms
proof (induction es arbitrary: os ts tu)
  case Nil then show ?case by simp
next
  case (Cons e es)
  have ne: "snd e \<noteq> []" using Cons.prems(1) by simp
  have fresh: "fst e \<notin> fst ` set os" using Cons.prems(3) by auto
  let ?c = "pick val (fst e) (snd e)"
  have step: "extract_sku val e (os, ts, tu) =
      Inr (os @ [(fst e, entry_of ?c)], ts + spend ?c, tu + utility ?c)"
    by (simp add: extract_sku_def chosen_of_pick[OF ne] update_fresh[OF fresh] entry_of_def)
  have "for_each (extract_sku val) es (os @ [(fst e, entry_of ?c)], ts + spend ?c, tu + utility ?c) =
           Inr ((os @ [(fst e, entry_of ?c)]) @ map (\<lambda>e. (fst e, entry_of (pick val (fst e) (snd e)))) es,
                (ts + spend ?c) + sum_list (map (\<lambda>e. spend (pick val (fst e) (snd e))) es),
                (tu + utility ?c) + sum_list (map (\<lambda>e. utility (pick val (fst e) (snd e))) es))"
    using Cons.prems by (intro Cons.IH) auto
  then show ?case by (simp add: step add.assoc)
qed

lemma plan_result:
  assumes "generate_candidates kb = Inr st" "map fst (ps_sku_cands st) = map fst PRODUCTS"
    "\<forall>e \<in> set (ps_sku_cands st). menu_ok (snd e)"
  shows "plan solver kb =
     Inr (\<lparr>plan_day = day kb,
           plan_orders = map (\<lambda>e. (fst e, entry_of (pick (solver (selection_problem st)) (fst e) (snd e))))
                           (ps_sku_cands st),
           stop_orders = ps_stop_orders st,
           meta = \<lparr>budget_limit = DAILY_BUDGET_LIMIT,
                   meta_spend = round2 (sum_list (map (\<lambda>e. spend (pick (solver (selection_problem st)) (fst e) (snd e)))
                                  (ps_sku_cands st))),
                   meta_utility = round2 (sum_list (map (\<lambda>e. utility (pick (solver (selection_problem st)) (fst e) (snd e)))
                                  (ps_sku_cands st))),
                   blocked_skus = ps_blocked st\<rparr>\<rparr>,
          ps_kb st)"
proof -
  have "for_each (extract_sku (solver (selection_problem st))) (ps_sku_cands st) ([], 0, 0) =
           Inr ([] @ map (\<lambda>e. (fst e, entry_of (pick (solver (selection_problem st)) (fst e) (snd e)))) (ps_sku_cands st),
                0 + sum_list (map (\<lambda>e. spend (pick (solver (selection_problem st)) (fst e) (snd e))) (ps_sku_cands st)),
                0 + sum_list (map (\<lambda>e. utility (pick (solver (selection_problem st)) (fst e) (snd e))) (ps_sku_cands st)))"
    by (rule extract_loop) (use assms(2,3) distinct_PRODUCTS menu_ok_nonempty in auto)
  then show ?thesis
    by (simp add: plan_def assms(1) Let_def)
qed

lemma plan_at:
  assumes "orders_ok kb" "sku \<in> set (map fst PRODUCTS)"
  shows "\<exists>st p kb' cands. generate_candidates kb = Inr st \<and> plan solver kb = Inr (p, kb')
           \<and> map_of (ps_sku_cands st) sku = Some cands \<and> menu_ok cands
           \<and> map_of (plan_orders p) sku =
                Some (entry_of (pick (solver (selection_problem st)) sku cands))
           \<and> map fst (plan_orders p) = map fst PRODUCTS
           \<and> stop_orders p = ps_stop_orders st \<and> blocked_skus (meta p) = ps_blocked st
           \<and> budget_limit (meta p) = DAILY_BUDGET_LIMIT
           \<and> meta_spend (meta p) = round2 (sum_list (map (\<lambda>e. spend (pick (solver (selection_problem st)) (fst e) (snd e))) (ps_sku_cands st)))
           \<and> kb' = ps_kb st"
proof -
  from gen_total[OF assms(1)] obtain st where
    st: "generate_candidates kb = Inr st" "map fst (ps_sku_cands st) = map fst PRODUCTS"
      "\<forall>e \<in> set (ps_sku_cands st). menu_ok (snd e)" by blast
  have d: "distinct (map fst (ps_sku_cands st))" using st(2) distinct_PRODUCTS by simp
  from assms(2) st(2) have "sku \<in> set (map fst (ps_sku_cands st))" by simp
  from map_of_keys[OF this] obtain cands where
    c: "map_of (ps_sku_cands st) sku = Some cands" "(sku, cands) \<in> set (ps_sku_cands st)" by blast
  have ok: "menu_ok cands" using st(3) c(2) by auto
  let ?val = "solver (selection_problem st)"
  have m: "map_of (map (\<lambda>e. (fst e, entry_of (pick ?val (fst e) (snd e)))) (ps_sku_cands st)) sku
        = Some (entry_of (pick ?val sku cands))"
    using map_of_entries[OF d c(2), of "\<lambda>e. entry_of (pick ?val (fst e) (snd e))"] by simp
  have k: "map fst (map (\<lambda>e. (fst e, entry_of (pick ?val (fst e) (snd e)))) (ps_sku_cands st)) = map fst PRODUCTS"
    using st(2) by (simp add: comp_def)
  show ?thesis
    using st(1) c(1) ok m k by (simp add: plan_result[OF st])
qed

subsection \<open>The answer of the solver\<close>







lemma spend_nothing:
  assumes "nothing_selected \<lparr>milp_cands = es, milp_budget = b\<rparr> val" "\<forall>e \<in> set es. menu_ok (snd e)"
  shows "sum_list (map (\<lambda>e. spend (pick val (fst e) (snd e))) es) = 0"
proof -
  have "map (\<lambda>e. spend (pick val (fst e) (snd e))) es = map (\<lambda>e. 0) es"
    using assms by (intro map_cong refl) (auto simp: nothing_selected_def list_all_iff pick_none menu_ok_def)
  then have "sum_list (map (\<lambda>e. spend (pick val (fst e) (snd e))) es) = sum_list (map (\<lambda>e. 0) es)"
    by (simp only:)
  then show ?thesis by simp
qed

lemma orders_ok_init: "orders_ok Knowledge_init"
  by (simp add: orders_ok_def Knowledge_init_def PRODUCTS_def)

lemma orders_ok_blocks: "orders_ok (kb\<lparr>blocks := B\<rparr>) = orders_ok kb"
  by (simp add: orders_ok_def)

lemma first_choice_ok: "solution_ok prob (first_choice_solver prob)"
  by (simp add: solution_ok_def first_choice_solver_def nothing_selected_def selected_def list_all_iff)

subsection \<open>The plans of the initial store\<close>











subsection \<open>The plan\<close>




text \<open>
  C2. The plan's orders have exactly one entry for every product of the catalogue, in the
  catalogue's order, blocked products included; the entry is the quantity, utility and spend
  of one candidate of that product's list.
\<close>

theorem plan_one_order_per_product:
  assumes "orders_ok kb"
  shows "\<exists>st p kb'. generate_candidates kb = Inr st \<and> plan solver kb = Inr (p, kb')
           \<and> map fst (plan_orders p) = map fst PRODUCTS
           \<and> distinct (map fst (plan_orders p))
           \<and> (\<forall>sku \<in> set (map fst PRODUCTS). \<exists>cands c.
                 map_of (ps_sku_cands st) sku = Some cands \<and> c \<in> set cands
                 \<and> map_of (plan_orders p) sku =
                     Some \<lparr>oe_qty = qty c, oe_expected_utility = utility c, oe_spend = spend c\<rparr>)"
proof -
  from gen_total[OF assms(1)] obtain st where
    st: "generate_candidates kb = Inr st" "map fst (ps_sku_cands st) = map fst PRODUCTS"
      "\<forall>e \<in> set (ps_sku_cands st). menu_ok (snd e)" by blast
  obtain p kb' where p: "plan solver kb = Inr (p, kb')" by (simp add: plan_result[OF st])
  have each: "\<exists>cands c. map_of (ps_sku_cands st) sku = Some cands \<and> c \<in> set cands
                 \<and> map_of (plan_orders p) sku =
                     Some \<lparr>oe_qty = qty c, oe_expected_utility = utility c, oe_spend = spend c\<rparr>"
    if "sku \<in> set (map fst PRODUCTS)" for sku
  proof -
    from plan_at[OF assms that, of solver] st(1) p obtain cands where
      c: "map_of (ps_sku_cands st) sku = Some cands" "menu_ok cands"
      "map_of (plan_orders p) sku = Some (entry_of (pick (solver (selection_problem st)) sku cands))"
      by auto
    have "pick (solver (selection_problem st)) sku cands \<in> set cands"
      using c(2) by (intro pick_mem menu_ok_nonempty)
    with c(1,3) show ?thesis unfolding entry_of_def by blast
  qed
  from plan_at[OF assms, of "''SKU_001''" solver] p
  have "map fst (plan_orders p) = map fst PRODUCTS" by (auto simp: keys_PRODUCTS)
  with st(1) p each distinct_PRODUCTS show ?thesis by auto
qed

theorem plan_one_order_per_product_witness:
  "orders_ok Knowledge_init
   \<and> (\<exists>st p kb'. generate_candidates Knowledge_init = Inr st
         \<and> plan first_choice_solver Knowledge_init = Inr (p, kb')
         \<and> map fst (plan_orders p) = [''SKU_001'', ''SKU_002'', ''SKU_003'', ''SKU_004'']
         \<and> distinct (map fst (plan_orders p))
         \<and> (\<exists>cands c. map_of (ps_sku_cands st) ''SKU_003'' = Some cands \<and> c \<in> set cands
              \<and> map_of (plan_orders p) ''SKU_003'' =
                   Some \<lparr>oe_qty = qty c, oe_expected_utility = utility c, oe_spend = spend c\<rparr>))"
proof -
  from plan_one_order_per_product[OF orders_ok_init, of first_choice_solver]
  obtain st p kb' where
    s: "generate_candidates Knowledge_init = Inr st"
      "plan first_choice_solver Knowledge_init = Inr (p, kb')"
      "map fst (plan_orders p) = map fst PRODUCTS" "distinct (map fst (plan_orders p))"
      "\<forall>sku \<in> set (map fst PRODUCTS). \<exists>cands c.
                 map_of (ps_sku_cands st) sku = Some cands \<and> c \<in> set cands
                 \<and> map_of (plan_orders p) sku =
                     Some \<lparr>oe_qty = qty c, oe_expected_utility = utility c, oe_spend = spend c\<rparr>"
    by blast
  have "''SKU_003'' \<in> set (map fst PRODUCTS)" by (simp add: keys_PRODUCTS)
  with s(5) have "\<exists>cands c. map_of (ps_sku_cands st) ''SKU_003'' = Some cands \<and> c \<in> set cands
              \<and> map_of (plan_orders p) ''SKU_003'' =
                   Some \<lparr>oe_qty = qty c, oe_expected_utility = utility c, oe_spend = spend c\<rparr>"
    by blast
  with s(1,2,3,4) orders_ok_init show ?thesis by (auto simp: keys_PRODUCTS)
qed

text \<open>
  C3. A product whose blocked-until day has not passed gets the zero candidate as its only
  candidate, and the plan orders quantity 0 with spend 0 for it; the block stays as it is.
\<close>

theorem blocked_product_orders_nothing:
  assumes "orders_ok kb" "sku \<in> set (map fst PRODUCTS)"
    and "blocks kb sku = Some until" "day kb \<le> until"
  shows "\<exists>st p kb'. generate_candidates kb = Inr st \<and> plan solver kb = Inr (p, kb')
           \<and> map_of (ps_sku_cands st) sku = Some [zero_candidate]
           \<and> map_of (plan_orders p) sku =
               Some \<lparr>oe_qty = 0, oe_expected_utility = 0, oe_spend = 0\<rparr>
           \<and> sku \<in> set (blocked_skus (meta p))
           \<and> blocks kb' sku = Some until \<and> day kb' = day kb"
proof -
  have b: "is_blocked kb sku" using assms(3,4) by (simp add: is_blocked_def)
  from plan_at[OF assms(1,2), of solver] obtain st p kb' cands where
    s: "generate_candidates kb = Inr st" "plan solver kb = Inr (p, kb')"
      "map_of (ps_sku_cands st) sku = Some cands"
      "map_of (plan_orders p) sku = Some (entry_of (pick (solver (selection_problem st)) sku cands))"
      "blocked_skus (meta p) = ps_blocked st" "kb' = ps_kb st" by blast
  note g = gen_at_blocked[OF s(1) assms(2) b]
  have c: "cands = [zero_candidate]" using s(3) g(1) by simp
  have "pick (solver (selection_problem st)) sku cands \<in> set cands"
    unfolding c by (rule pick_mem) simp
  then have pk: "pick (solver (selection_problem st)) sku cands = zero_candidate" using c by simp
  have dy: "day (ps_kb st) = day kb" using gen_kb[OF s(1)] by auto
  show ?thesis
    using s(1,2) g(1) s(4) pk g(3) s(5) g(2) assms(3) s(6) dy
    by (simp add: entry_of_def zero_candidate_def)
qed

theorem blocked_product_orders_nothing_witness:
  "orders_ok (Knowledge_init\<lparr>blocks := [''SKU_002'' \<mapsto> 3]\<rparr>)
   \<and> ''SKU_002'' \<in> set (map fst PRODUCTS)
   \<and> blocks (Knowledge_init\<lparr>blocks := [''SKU_002'' \<mapsto> 3]\<rparr>) ''SKU_002'' = Some 3
   \<and> day (Knowledge_init\<lparr>blocks := [''SKU_002'' \<mapsto> 3]\<rparr>) \<le> 3
   \<and> (\<exists>st p kb'. generate_candidates (Knowledge_init\<lparr>blocks := [''SKU_002'' \<mapsto> 3]\<rparr>) = Inr st
         \<and> plan first_choice_solver (Knowledge_init\<lparr>blocks := [''SKU_002'' \<mapsto> 3]\<rparr>) = Inr (p, kb')
         \<and> map_of (ps_sku_cands st) ''SKU_002'' = Some [zero_candidate]
         \<and> map_of (plan_orders p) ''SKU_002'' =
               Some \<lparr>oe_qty = 0, oe_expected_utility = 0, oe_spend = 0\<rparr>
         \<and> ''SKU_002'' \<in> set (blocked_skus (meta p))
         \<and> blocks kb' ''SKU_002'' = Some 3
         \<and> day kb' = day (Knowledge_init\<lparr>blocks := [''SKU_002'' \<mapsto> 3]\<rparr>))"
proof -
  let ?kb = "Knowledge_init\<lparr>blocks := [''SKU_002'' \<mapsto> 3]\<rparr>"
  have h1: "orders_ok ?kb" by (simp add: orders_ok_blocks orders_ok_init)
  have h2: "''SKU_002'' \<in> set (map fst PRODUCTS)" by (simp add: keys_PRODUCTS)
  have h3: "blocks ?kb ''SKU_002'' = Some 3" by simp
  have h4: "day ?kb \<le> 3" by (simp add: Knowledge_init_def)
  note h = h1 h2 h3 h4
  from blocked_product_orders_nothing[OF h, of first_choice_solver] h show ?thesis by simp
qed

text \<open>
  C4. \<open>plan\<close> returns a plan: every product's candidate list starts with a candidate of
  quantity 0 and spend 0; a product of which the solver marks no candidate gets that candidate;
  when the solver marks nothing at all the plan's spend is 0.
\<close>

theorem plan_always_returns:
  assumes "orders_ok kb"
  shows "\<exists>st p kb'. generate_candidates kb = Inr st \<and> plan solver kb = Inr (p, kb')
     \<and> (\<forall>sku \<in> set (map fst PRODUCTS). \<exists>cands. map_of (ps_sku_cands st) sku = Some cands
          \<and> cands \<noteq> [] \<and> qty (cands ! 0) = 0 \<and> spend (cands ! 0) = 0
          \<and> (list_all (\<lambda>i. \<not> selected (solver (selection_problem st)) sku i) [0..<length cands]
              \<longrightarrow> map_of (plan_orders p) sku =
                    Some \<lparr>oe_qty = 0, oe_expected_utility = utility (cands ! 0), oe_spend = 0\<rparr>))
     \<and> (nothing_selected (selection_problem st) (solver (selection_problem st))
          \<longrightarrow> meta_spend (meta p) = 0)"
proof -
  from gen_total[OF assms(1)] obtain st where
    st: "generate_candidates kb = Inr st" "map fst (ps_sku_cands st) = map fst PRODUCTS"
      "\<forall>e \<in> set (ps_sku_cands st). menu_ok (snd e)" by blast
  let ?val = "solver (selection_problem st)"
  obtain p kb' where p: "plan solver kb = Inr (p, kb')"
    "meta_spend (meta p) = round2 (sum_list (map (\<lambda>e. spend (pick ?val (fst e) (snd e))) (ps_sku_cands st)))"
    by (simp add: plan_result[OF st])
  have each: "\<exists>cands. map_of (ps_sku_cands st) sku = Some cands
          \<and> cands \<noteq> [] \<and> qty (cands ! 0) = 0 \<and> spend (cands ! 0) = 0
          \<and> (list_all (\<lambda>i. \<not> selected ?val sku i) [0..<length cands]
              \<longrightarrow> map_of (plan_orders p) sku =
                    Some \<lparr>oe_qty = 0, oe_expected_utility = utility (cands ! 0), oe_spend = 0\<rparr>)"
    if "sku \<in> set (map fst PRODUCTS)" for sku
  proof -
    from plan_at[OF assms that, of solver] st(1) p(1) obtain cands where
      c: "map_of (ps_sku_cands st) sku = Some cands" "menu_ok cands"
      "map_of (plan_orders p) sku = Some (entry_of (pick ?val sku cands))"
      by auto
    have "map_of (plan_orders p) sku =
            Some \<lparr>oe_qty = 0, oe_expected_utility = utility (cands ! 0), oe_spend = 0\<rparr>"
      if "list_all (\<lambda>i. \<not> selected ?val sku i) [0..<length cands]"
      using c(2,3) pick_none[OF that] by (simp add: entry_of_def menu_ok_def)
    with c(1,2) show ?thesis by (auto simp: menu_ok_def)
  qed
  have none: "meta_spend (meta p) = 0" if "nothing_selected (selection_problem st) ?val"
  proof -
    from that have "sum_list (map (\<lambda>e. spend (pick ?val (fst e) (snd e))) (ps_sku_cands st)) = 0"
      unfolding selection_problem_def using st(3) by (rule spend_nothing)
    then show ?thesis by (simp add: p(2) round2_zero)
  qed
  from st(1) p(1) each none show ?thesis by blast
qed

theorem plan_always_returns_witness:
  "orders_ok Knowledge_init
   \<and> (\<exists>st p kb'. generate_candidates Knowledge_init = Inr st
        \<and> plan (\<lambda>prob k. None) Knowledge_init = Inr (p, kb')
        \<and> (\<exists>cands. map_of (ps_sku_cands st) ''SKU_001'' = Some cands
              \<and> cands \<noteq> [] \<and> qty (cands ! 0) = 0 \<and> spend (cands ! 0) = 0
              \<and> map_of (plan_orders p) ''SKU_001'' =
                    Some \<lparr>oe_qty = 0, oe_expected_utility = utility (cands ! 0), oe_spend = 0\<rparr>)
        \<and> meta_spend (meta p) = 0)"
proof -
  let ?s = "\<lambda>(prob :: Milp) (k :: string \<times> nat). (None :: real option)"
  from plan_always_returns[OF orders_ok_init, of ?s]
  obtain st p kb' where
    s: "generate_candidates Knowledge_init = Inr st" "plan ?s Knowledge_init = Inr (p, kb')"
     "\<forall>sku \<in> set (map fst PRODUCTS). \<exists>cands. map_of (ps_sku_cands st) sku = Some cands
          \<and> cands \<noteq> [] \<and> qty (cands ! 0) = 0 \<and> spend (cands ! 0) = 0
          \<and> (list_all (\<lambda>i. \<not> selected (?s (selection_problem st)) sku i) [0..<length cands]
              \<longrightarrow> map_of (plan_orders p) sku =
                    Some \<lparr>oe_qty = 0, oe_expected_utility = utility (cands ! 0), oe_spend = 0\<rparr>)"
     "nothing_selected (selection_problem st) (?s (selection_problem st))
          \<longrightarrow> meta_spend (meta p) = 0"
    by blast
  have ns: "nothing_selected (selection_problem st) (?s (selection_problem st))"
    by (simp add: nothing_selected_def selected_def list_all_iff)
  have "''SKU_001'' \<in> set (map fst PRODUCTS)" by (simp add: keys_PRODUCTS)
  with s(3) obtain cands where c: "map_of (ps_sku_cands st) ''SKU_001'' = Some cands"
    "cands \<noteq> []" "qty (cands ! 0) = 0" "spend (cands ! 0) = 0"
    "list_all (\<lambda>i. \<not> selected (?s (selection_problem st)) ''SKU_001'' i) [0..<length cands]
              \<longrightarrow> map_of (plan_orders p) ''SKU_001'' =
                    Some \<lparr>oe_qty = 0, oe_expected_utility = utility (cands ! 0), oe_spend = 0\<rparr>"
    by blast
  have "list_all (\<lambda>i. \<not> selected (?s (selection_problem st)) ''SKU_001'' i) [0..<length cands]"
    by (simp add: selected_def list_all_iff)
  with c(5) have "map_of (plan_orders p) ''SKU_001'' =
                    Some \<lparr>oe_qty = 0, oe_expected_utility = utility (cands ! 0), oe_spend = 0\<rparr>"
    by blast
  with s(1,2) c(1-4) s(4) ns orders_ok_init show ?thesis by blast
qed

subsection \<open>The overstock policy\<close>

lemma overstocked_facts:
  "orders_ok overstocked_kb" "\<not> is_blocked overstocked_kb ''SKU_001''"
  "forecast_mean overstocked_kb ''SKU_001'' 0 = 10"
  "get_stock_position overstocked_kb ''SKU_001'' = 500"
  "day overstocked_kb = 0"
  by (simp_all add: overstocked_kb_def orders_ok_def Knowledge_init_def PRODUCTS_def is_blocked_def
        forecast_mean_def get_stock_position_def get_stock_def)

lemma overstock_example: "is_overstock ''SKU_001'' 10 500"
  by (simp add: is_overstock_def fdiv_def OVERSTOCK_DAYS_OF_COVER_def)

lemma overstock_cover_50: "fdiv (round_double 500) 10 = 50"
  by (simp add: fdiv_def)

lemma cover_facts:
  "orders_ok cover_kb" "\<not> is_blocked cover_kb ''SKU_001''"
  "forecast_mean cover_kb ''SKU_001'' 0 = 6004799503160661 / 4503599627370496"
  "get_stock_position cover_kb ''SKU_001'' = 60"
  by (simp_all add: cover_kb_def orders_ok_def Knowledge_init_def PRODUCTS_def is_blocked_def
        forecast_mean_def get_stock_position_def get_stock_def)

lemma cover_45: "fdiv (round_double 60) (6004799503160661 / 4503599627370496) = 45"
  unfolding fdiv_def round_double_numeral
  by (subst round_double_eval[where e = 5]) (simp_all add: py_round_def powr_minus)

lemma cover_example: "\<not> is_overstock ''SKU_001'' (6004799503160661 / 4503599627370496) 60"
  using cover_45 by (simp add: is_overstock_def OVERSTOCK_DAYS_OF_COVER_def)

lemma blocked_overstocked_facts:
  "orders_ok blocked_overstocked_kb" "is_blocked blocked_overstocked_kb ''SKU_001''"
  "forecast_mean blocked_overstocked_kb ''SKU_001'' 0 = 10"
  "get_stock_position blocked_overstocked_kb ''SKU_001'' = 500"
  "day blocked_overstocked_kb = 0" "blocks blocked_overstocked_kb ''SKU_001'' = Some 0"
  by (simp_all add: blocked_overstocked_kb_def overstocked_kb_def orders_ok_def Knowledge_init_def
        PRODUCTS_def is_blocked_def forecast_mean_def get_stock_position_def get_stock_def)

text \<open>
  C8 as stated fails for a product that is already blocked: in \<open>blocked_overstocked_kb\<close> the
  first product has a mean above 1 and 50 days of cover, as an exact quotient and as the
  quotient of doubles, so that the test of the planner is true; yet the plan has no stop-order
  entry for it and its block is not set to \<open>day + STOP_ORDERS_DAYS\<close>.
\<close>

theorem overstock_blocked_counterexample:
  "1 < forecast_mean blocked_overstocked_kb ''SKU_001'' 0
   \<and> real_of_int OVERSTOCK_DAYS_OF_COVER
       < real_of_int (get_stock_position blocked_overstocked_kb ''SKU_001'')
           / forecast_mean blocked_overstocked_kb ''SKU_001'' 0
   \<and> real_of_int OVERSTOCK_DAYS_OF_COVER
       < fdiv (round_double (real_of_int (get_stock_position blocked_overstocked_kb ''SKU_001'')))
           (forecast_mean blocked_overstocked_kb ''SKU_001'' 0)
   \<and> is_overstock ''SKU_001'' (forecast_mean blocked_overstocked_kb ''SKU_001'' 0)
        (get_stock_position blocked_overstocked_kb ''SKU_001'')
   \<and> \<not> isl (plan first_choice_solver blocked_overstocked_kb)
   \<and> (''SKU_001'', STOP_ORDERS_DAYS)
        \<notin> set (stop_orders (fst (projr (plan first_choice_solver blocked_overstocked_kb))))
   \<and> blocks (snd (projr (plan first_choice_solver blocked_overstocked_kb))) ''SKU_001''
        \<noteq> Some (day blocked_overstocked_kb + STOP_ORDERS_DAYS)"
proof -
  have m: "''SKU_001'' \<in> set (map fst PRODUCTS)" by (simp add: keys_PRODUCTS)
  from plan_at[OF blocked_overstocked_facts(1) m, of first_choice_solver]
  obtain st p kb' where
    s: "generate_candidates blocked_overstocked_kb = Inr st"
      "plan first_choice_solver blocked_overstocked_kb = Inr (p, kb')"
      "stop_orders p = ps_stop_orders st" "kb' = ps_kb st" by blast
  note g = gen_at_blocked[OF s(1) m blocked_overstocked_facts(2)]
  have "(''SKU_001'', STOP_ORDERS_DAYS) \<notin> set (stop_orders p)" using g(4) s(3) by simp
  moreover have "blocks kb' ''SKU_001'' = Some 0"
    using g(2) s(4) blocked_overstocked_facts(6) by simp
  ultimately show ?thesis
    using s(2) blocked_overstocked_facts(3,4,5) overstock_example overstock_cover_50
    by (simp add: OVERSTOCK_DAYS_OF_COVER_def STOP_ORDERS_DAYS_def)
qed

text \<open>
  C8, amended. For a product that is not blocked: with a forecast mean of at most 1 the
  overstock test is false; above 1 it is true exactly when stock position / mean, the quotient
  of doubles that the planner computes, exceeds \<open>OVERSTOCK_DAYS_OF_COVER\<close>. When it is true the product is blocked until
  \<open>day + STOP_ORDERS_DAYS\<close>, the plan has the stop-order entry and the zero candidate is the
  only candidate; when it is false no block is set, no stop-order entry is written and the
  whole menu of quantities is offered.
\<close>

theorem overstock_freezes_unblocked_product:
  assumes "orders_ok kb" "sku \<in> set (map fst PRODUCTS)" "\<not> is_blocked kb sku"
  shows "(forecast_mean kb sku 0 \<le> 1 \<longrightarrow>
            \<not> is_overstock sku (forecast_mean kb sku 0) (get_stock_position kb sku))
     \<and> (1 < forecast_mean kb sku 0 \<longrightarrow>
          (is_overstock sku (forecast_mean kb sku 0) (get_stock_position kb sku)
             \<longleftrightarrow> fdiv (round_double (real_of_int (get_stock_position kb sku)))
                        (forecast_mean kb sku 0)
                   > real_of_int OVERSTOCK_DAYS_OF_COVER))
     \<and> (\<exists>st p kb'. generate_candidates kb = Inr st \<and> plan solver kb = Inr (p, kb')
          \<and> (if is_overstock sku (forecast_mean kb sku 0) (get_stock_position kb sku)
              then blocks kb' sku = Some (day kb + STOP_ORDERS_DAYS)
                 \<and> (sku, STOP_ORDERS_DAYS) \<in> set (stop_orders p)
                 \<and> map_of (ps_sku_cands st) sku = Some [zero_candidate]
                 \<and> map_of (plan_orders p) sku =
                      Some \<lparr>oe_qty = 0, oe_expected_utility = 0, oe_spend = 0\<rparr>
              else blocks kb' sku = blocks kb sku
                 \<and> (\<forall>d. (sku, d) \<notin> set (stop_orders p))
                 \<and> (\<exists>cands. map_of (ps_sku_cands st) sku = Some cands
                       \<and> map qty cands = CANDIDATE_QTYS)))"
proof -
  let ?ov = "is_overstock sku (forecast_mean kb sku 0) (get_stock_position kb sku)"
  have a: "forecast_mean kb sku 0 \<le> 1 \<longrightarrow> \<not> ?ov"
    by (simp add: is_overstock_def)
  have b: "1 < forecast_mean kb sku 0 \<longrightarrow>
          (?ov \<longleftrightarrow> fdiv (round_double (real_of_int (get_stock_position kb sku)))
                        (forecast_mean kb sku 0)
                   > real_of_int OVERSTOCK_DAYS_OF_COVER)"
    by (simp add: is_overstock_def Let_def)
  from plan_at[OF assms(1,2), of solver] obtain st p kb' cands where
    s: "generate_candidates kb = Inr st" "plan solver kb = Inr (p, kb')"
      "map_of (ps_sku_cands st) sku = Some cands"
      "map_of (plan_orders p) sku = Some (entry_of (pick (solver (selection_problem st)) sku cands))"
      "stop_orders p = ps_stop_orders st" "kb' = ps_kb st" by blast
  have c: "if ?ov
              then blocks kb' sku = Some (day kb + STOP_ORDERS_DAYS)
                 \<and> (sku, STOP_ORDERS_DAYS) \<in> set (stop_orders p)
                 \<and> map_of (ps_sku_cands st) sku = Some [zero_candidate]
                 \<and> map_of (plan_orders p) sku =
                      Some \<lparr>oe_qty = 0, oe_expected_utility = 0, oe_spend = 0\<rparr>
              else blocks kb' sku = blocks kb sku
                 \<and> (\<forall>d. (sku, d) \<notin> set (stop_orders p))
                 \<and> (\<exists>cands. map_of (ps_sku_cands st) sku = Some cands
                       \<and> map qty cands = CANDIDATE_QTYS)"
  proof (cases ?ov)
    case True
    note g = gen_at_overstock[OF s(1) assms(2,3) True]
    have cz: "cands = [zero_candidate]" using s(3) g(1) by simp
    have "pick (solver (selection_problem st)) sku cands \<in> set cands"
      unfolding cz by (rule pick_mem) simp
    then have pk: "pick (solver (selection_problem st)) sku cands = zero_candidate" using cz by simp
    show ?thesis
      using True g(1,2) g(4)[of STOP_ORDERS_DAYS] s(4,5,6) pk
      by (simp add: entry_of_def zero_candidate_def)
  next
    case False
    from assms(2) obtain pr where pr: "(sku, pr) \<in> set PRODUCTS" by auto
    note g = gen_at_menu[OF s(1) pr assms(3) False orders_okD[OF assms(1,2)]]
    show ?thesis
      using False g(1,2,4) s(5,6) by auto
  qed
  from a b s(1,2) c show ?thesis by blast
qed

theorem overstock_freezes_unblocked_product_witness:
  "orders_ok overstocked_kb \<and> ''SKU_001'' \<in> set (map fst PRODUCTS)
   \<and> \<not> is_blocked overstocked_kb ''SKU_001''
   \<and> forecast_mean overstocked_kb ''SKU_001'' 0 = 10
   \<and> get_stock_position overstocked_kb ''SKU_001'' = 500
   \<and> fdiv (round_double 500) 10 = 50
   \<and> is_overstock ''SKU_001'' 10 500
   \<and> (\<exists>st p kb'. generate_candidates overstocked_kb = Inr st
        \<and> plan first_choice_solver overstocked_kb = Inr (p, kb')
        \<and> blocks kb' ''SKU_001'' = Some 2
        \<and> (''SKU_001'', 2) \<in> set (stop_orders p)
        \<and> map_of (ps_sku_cands st) ''SKU_001'' = Some [zero_candidate]
        \<and> map_of (plan_orders p) ''SKU_001'' =
             Some \<lparr>oe_qty = 0, oe_expected_utility = 0, oe_spend = 0\<rparr>)
   \<and> orders_ok cover_kb \<and> \<not> is_blocked cover_kb ''SKU_001''
   \<and> forecast_mean cover_kb ''SKU_001'' 0 = 6004799503160661 / 4503599627370496
   \<and> get_stock_position cover_kb ''SKU_001'' = 60
   \<and> 45 < (60 :: real) / (6004799503160661 / 4503599627370496)
   \<and> fdiv (round_double 60) (6004799503160661 / 4503599627370496) = 45
   \<and> \<not> is_overstock ''SKU_001'' (6004799503160661 / 4503599627370496) 60
   \<and> (\<exists>st p kb'. generate_candidates cover_kb = Inr st
        \<and> plan first_choice_solver cover_kb = Inr (p, kb')
        \<and> blocks kb' ''SKU_001'' = blocks cover_kb ''SKU_001''
        \<and> (''SKU_001'', 2) \<notin> set (stop_orders p)
        \<and> (\<exists>cands. map_of (ps_sku_cands st) ''SKU_001'' = Some cands
              \<and> map qty cands = [0, 25, 50, 75, 100, 150, 200, 250]))"
proof -
  have m: "''SKU_001'' \<in> set (map fst PRODUCTS)" by (simp add: keys_PRODUCTS)
  from overstock_freezes_unblocked_product[OF overstocked_facts(1) m overstocked_facts(2),
      of first_choice_solver]
  have first: "\<exists>st p kb'. generate_candidates overstocked_kb = Inr st
        \<and> plan first_choice_solver overstocked_kb = Inr (p, kb')
        \<and> blocks kb' ''SKU_001'' = Some 2
        \<and> (''SKU_001'', 2) \<in> set (stop_orders p)
        \<and> map_of (ps_sku_cands st) ''SKU_001'' = Some [zero_candidate]
        \<and> map_of (plan_orders p) ''SKU_001'' =
             Some \<lparr>oe_qty = 0, oe_expected_utility = 0, oe_spend = 0\<rparr>"
    using overstocked_facts overstock_example by (simp add: STOP_ORDERS_DAYS_def)
  from overstock_freezes_unblocked_product[OF cover_facts(1) m cover_facts(2),
      of first_choice_solver]
  have second: "\<exists>st p kb'. generate_candidates cover_kb = Inr st
        \<and> plan first_choice_solver cover_kb = Inr (p, kb')
        \<and> blocks kb' ''SKU_001'' = blocks cover_kb ''SKU_001''
        \<and> (''SKU_001'', 2) \<notin> set (stop_orders p)
        \<and> (\<exists>cands. map_of (ps_sku_cands st) ''SKU_001'' = Some cands
              \<and> map qty cands = [0, 25, 50, 75, 100, 150, 200, 250])"
    using cover_facts cover_example by (auto simp: CANDIDATE_QTYS_def)
  have ex: "45 < (60 :: real) / (6004799503160661 / 4503599627370496)" by simp
  show ?thesis
    using overstocked_facts(1) m overstocked_facts(2,3,4) overstock_cover_50 overstock_example
      first cover_facts ex cover_45 cover_example second
    by (intro conjI) assumption+
qed

subsection \<open>The budget field of the store\<close>

lemma reads_budget:
  "forecast_mean (kb\<lparr>budget := b\<rparr>) = forecast_mean kb"
  "forecast_std (kb\<lparr>budget := b\<rparr>) = forecast_std kb"
  "get_stock_position (kb\<lparr>budget := b\<rparr>) = get_stock_position kb"
  "get_last_order_qty (kb\<lparr>budget := b\<rparr>) = get_last_order_qty kb"
  "is_blocked (kb\<lparr>budget := b\<rparr>) = is_blocked kb"
  by (auto simp: fun_eq_iff forecast_mean_def forecast_std_def get_stock_position_def
        get_stock_def get_last_order_qty_def is_blocked_def split: option.splits)

lemma cand_budget: "candidate_utility (kb\<lparr>budget := b\<rparr>) sku q = candidate_utility kb sku q"
  by (cases "product_of sku") (simp_all add: candidate_utility_def reads_budget)

lemma shape_budget: "shape (kb\<lparr>budget := b\<rparr>) sku p cs = shape kb sku p cs"
  unfolding shape_def reads_budget by simp

lemma gen_sku_budget:
  "gen_sku sku (with_budget b st) = map_sum id (with_budget b) (gen_sku sku st)"
proof -
  have c: "candidate_utility (ps_kb st\<lparr>budget := b\<rparr>) sku = candidate_utility (ps_kb st) sku"
    by (rule ext) (rule cand_budget)
  show ?thesis
    unfolding gen_sku_def with_budget_def Let_def
    by (simp add: c shape_budget reads_budget block_orders_def split: sum.splits)
qed

lemma loop_budget:
  "for_each gen_sku skus (with_budget b st) = map_sum id (with_budget b) (for_each gen_sku skus st)"
proof (induction skus arbitrary: st)
  case Nil show ?case by simp
next
  case (Cons x xs)
  show ?case
  proof (cases "gen_sku x st")
    case (Inl e)
    then show ?thesis by (simp add: gen_sku_budget)
  next
    case (Inr sx)
    then show ?thesis by (simp add: gen_sku_budget Cons.IH)
  qed
qed

lemma dz_budget:
  "fold (\<lambda>sku k. fst (dynamic_z k sku)) skus (kb\<lparr>budget := b\<rparr>)
     = (fold (\<lambda>sku k. fst (dynamic_z k sku)) skus kb)\<lparr>budget := b\<rparr>"
proof (induction skus arbitrary: kb)
  case Nil show ?case by simp
next
  case (Cons x xs)
  have "fst (dynamic_z (kb\<lparr>budget := b\<rparr>) x) = (fst (dynamic_z kb x))\<lparr>budget := b\<rparr>"
    by (simp add: dynamic_z_def Let_def set_safety_z_def)
  then show ?case by (simp add: Cons.IH)
qed

lemma generate_budget:
  "generate_candidates (kb\<lparr>budget := b\<rparr>) = map_sum id (with_budget b) (generate_candidates kb)"
proof -
  let ?k = "fold (\<lambda>sku k. fst (dynamic_z k sku)) (map fst PRODUCTS) kb"
  have "\<lparr>ps_kb = ?k\<lparr>budget := b\<rparr>, ps_stop_orders = [], ps_sku_cands = [], ps_blocked = []\<rparr>
      = with_budget b \<lparr>ps_kb = ?k, ps_stop_orders = [], ps_sku_cands = [], ps_blocked = []\<rparr>"
    by (simp add: with_budget_def)
  then show ?thesis
    unfolding generate_candidates_def Let_def dz_budget by (simp only: loop_budget)
qed

lemma plan_budget:
  "plan solver (kb\<lparr>budget := b\<rparr>)
     = map_sum id (\<lambda>r. (fst r, (snd r)\<lparr>budget := b\<rparr>)) (plan solver kb)"
proof (cases "generate_candidates kb")
  case (Inl e)
  then show ?thesis by (simp add: plan_def generate_budget)
next
  case (Inr st)
  have sp: "selection_problem (with_budget b st) = selection_problem st"
    by (simp add: selection_problem_def with_budget_def)
  have f: "ps_sku_cands (with_budget b st) = ps_sku_cands st"
    "ps_stop_orders (with_budget b st) = ps_stop_orders st"
    "ps_blocked (with_budget b st) = ps_blocked st"
    "ps_kb (with_budget b st) = (ps_kb st)\<lparr>budget := b\<rparr>"
    by (simp_all add: with_budget_def)
  show ?thesis
    by (simp add: plan_def generate_budget Inr sp f Let_def split: sum.splits)
qed

text \<open>
  C10. The cap of the selection problem is \<open>DAILY_BUDGET_LIMIT\<close>, and so is the one in
  \<open>meta\<close>. The budget field of the store has no effect on the plan: with any other value in
  it \<open>plan\<close> gives the same plan (or the same error) and leaves the same store but for that
  field.
\<close>

theorem plan_ignores_budget_field:
  "milp_budget (selection_problem st) = DAILY_BUDGET_LIMIT
   \<and> plan solver (kb\<lparr>budget := b\<rparr>)
     = map_sum id (\<lambda>r. (fst r, (snd r)\<lparr>budget := b\<rparr>)) (plan solver kb)
   \<and> (orders_ok kb \<longrightarrow>
        (\<exists>p kb'. plan solver kb = Inr (p, kb')
           \<and> plan solver (kb\<lparr>budget := b\<rparr>) = Inr (p, kb'\<lparr>budget := b\<rparr>)
           \<and> budget_limit (meta p) = DAILY_BUDGET_LIMIT
           \<and> budget kb' = budget kb))"
proof -
  have "\<exists>p kb'. plan solver kb = Inr (p, kb')
           \<and> plan solver (kb\<lparr>budget := b\<rparr>) = Inr (p, kb'\<lparr>budget := b\<rparr>)
           \<and> budget_limit (meta p) = DAILY_BUDGET_LIMIT \<and> budget kb' = budget kb"
    if ok: "orders_ok kb"
  proof -
    from plan_at[OF ok, of "''SKU_001''" solver] obtain st p kb' where
      s: "generate_candidates kb = Inr st" "plan solver kb = Inr (p, kb')"
      "budget_limit (meta p) = DAILY_BUDGET_LIMIT" "kb' = ps_kb st"
      by (auto simp: keys_PRODUCTS)
    have "budget kb' = budget kb" using gen_kb[OF s(1)] s(4) by auto
    with s(2,3) show ?thesis by (simp add: plan_budget)
  qed
  then show ?thesis using plan_budget by (simp add: selection_problem_def)
qed

theorem plan_ignores_budget_field_witness:
  "orders_ok Knowledge_init
   \<and> (\<exists>p kb'. plan first_choice_solver Knowledge_init = Inr (p, kb')
         \<and> plan first_choice_solver (Knowledge_init\<lparr>budget := 42000\<rparr>) = Inr (p, kb'\<lparr>budget := 42000\<rparr>)
         \<and> budget_limit (meta p) = 30000
         \<and> budget kb' = 30000)"
proof -
  have b0: "budget Knowledge_init = 30000" by (simp add: Knowledge_init_def INITIAL_BUDGET_def)
  from plan_ignores_budget_field[where solver = first_choice_solver and kb = Knowledge_init and b = 42000]
    orders_ok_init
  obtain p kb' where "plan first_choice_solver Knowledge_init = Inr (p, kb')"
    "plan first_choice_solver (Knowledge_init\<lparr>budget := 42000\<rparr>) = Inr (p, kb'\<lparr>budget := 42000\<rparr>)"
    "budget_limit (meta p) = DAILY_BUDGET_LIMIT" "budget kb' = budget Knowledge_init"
    by blast
  with b0 orders_ok_init show ?thesis by (auto simp: DAILY_BUDGET_LIMIT_def)
qed

subsection \<open>The executor\<close>

text \<open>The executor reads \<open>daily_budget_spent\<close> and never writes it.\<close>

lemma execute_order_keeps_spent:
  assumes "execute_order randint e st = Inr st'"
  shows "daily_budget_spent (ex_kb st') = daily_budget_spent (ex_kb st)"
  using assms
  by (auto simp: execute_order_def record_order_def Let_def split: if_splits sum.splits option.splits)

lemma execute_keeps_spent:
  assumes "execute randint kb env p = Inr st"
  shows "daily_budget_spent (ex_kb st) = daily_budget_spent kb"
proof -
  have loop: "for_each (execute_order randint) es s = Inr s' \<Longrightarrow>
      daily_budget_spent (ex_kb s') = daily_budget_spent (ex_kb s)" for es s s'
  proof (induction es arbitrary: s)
    case Nil then show ?case by simp
  next
    case (Cons x xs)
    then obtain s1 where s1: "execute_order randint x s = Inr s1"
      "for_each (execute_order randint) xs s1 = Inr s'"
      by (auto split: sum.splits)
    from execute_order_keeps_spent[OF s1(1)] Cons.IH[OF s1(2)] show ?case by simp
  qed
  from assms obtain s' where
    "for_each (execute_order randint) (plan_orders p)
       \<lparr>ex_kb = kb, ex_env = env, ex_actions = \<lparr>orders_placed = [], act_spend = 0\<rparr>\<rparr> = Inr s'"
    "ex_kb st = ex_kb s'"
    by (auto simp: execute_def split: sum.splits)
  with loop[OF this(1)] show ?thesis by simp
qed

text \<open>
  C9, at the failing input. \<open>execute\<close> places both orders of \<open>over_budget_plan\<close>: each is
  within the limit less \<open>daily_budget_spent\<close>, which stays 0, and the spend committed is
  45095, above \<open>DAILY_BUDGET_LIMIT\<close>.
\<close>

theorem execute_exceeds_budget:
  "\<exists>st. execute randint Knowledge_init start_env over_budget_plan = Inr st
      \<and> map pl_sku (orders_placed (ex_actions st)) = [''SKU_001'', ''SKU_002'']
      \<and> map pl_spend (orders_placed (ex_actions st)) = [27550, 17545]
      \<and> act_spend (ex_actions st) = 45095
      \<and> DAILY_BUDGET_LIMIT < act_spend (ex_actions st)
      \<and> daily_budget_spent (ex_kb st) = 0"
proof -
  have r: "round2 45095 = 45095" using round2_int[of 45095] by simp
  show ?thesis
    by (simp add: execute_def over_budget_plan_def execute_order_def product_of_def PRODUCTS_def
        DAILY_BUDGET_LIMIT_def Knowledge_init_def place_order_def record_order_def start_env_def
        Let_def r)
qed

subsection \<open>The stores that the program reaches\<close>

lemma init_ok: "orders_ok Knowledge_init \<and> history_ok Knowledge_init"
  by (simp add: orders_ok_def history_ok_def Knowledge_init_def PRODUCTS_def)

lemma update_day_ok:
  "orders_ok (update_day kb d) = orders_ok kb \<and> history_ok (update_day kb d) = history_ok kb"
  by (simp add: orders_ok_def history_ok_def update_day_def)

lemma record_outcome_ok:
  "orders_ok (record_outcome kb outcome) = orders_ok kb
   \<and> history_ok (record_outcome kb outcome) = history_ok kb"
  by (auto simp: orders_ok_def history_ok_def record_outcome_def list_all_iff split: option.splits)

lemma record_order_dom:
  assumes "record_order kb sku q s = Inr kb'"
  shows "(orders kb' k = None) = (orders kb k = None) \<and> history kb' = history kb"
  using assms by (auto simp: record_order_def split: option.splits if_splits)

lemma record_order_ok:
  assumes "record_order kb sku q s = Inr kb'"
  shows "orders_ok kb' = orders_ok kb \<and> history_ok kb' = history_ok kb"
  using record_order_dom[OF assms] by (simp add: orders_ok_def history_ok_def)

lemma plan_ok:
  assumes "plan solver kb = Inr (p, kb')"
  shows "orders_ok kb' = orders_ok kb \<and> history_ok kb' = history_ok kb"
proof -
  from assms obtain st where st: "generate_candidates kb = Inr st" "kb' = ps_kb st"
    by (auto simp: plan_def Let_def split: sum.splits)
  from gen_kb[OF st(1)] st(2) show ?thesis by (auto simp: orders_ok_def history_ok_def)
qed

lemma analyze_sku_orders:
  "analyze_sku sku st = Inr st' \<Longrightarrow> orders (fst st') = orders (fst st) \<and> history (fst st') = history (fst st)"
  by (auto simp: analyze_sku_def Let_def store_forecast_def store_volatility_def
        store_service_level_def store_anomaly_def split: sum.splits option.splits prod.splits if_splits)

lemma analyze_loop_orders:
  "for_each analyze_sku skus st = Inr st' \<Longrightarrow>
   orders (fst st') = orders (fst st) \<and> history (fst st') = history (fst st)"
proof (induction skus arbitrary: st)
  case Nil then show ?case by simp
next
  case (Cons x xs)
  then obtain s1 where s1: "analyze_sku x st = Inr s1" "for_each analyze_sku xs s1 = Inr st'"
    by (auto split: sum.splits)
  from analyze_sku_orders[OF s1(1)] Cons.IH[OF s1(2)] show ?case by simp
qed

lemma analyze_ok:
  assumes "analyze kb = Inr (kb', r)"
  shows "orders_ok kb' = orders_ok kb \<and> history_ok kb' = history_ok kb"
  using analyze_loop_orders[OF assms[unfolded analyze_def]]
  by (simp add: orders_ok_def history_ok_def)

lemma execute_order_ok:
  assumes "execute_order randint e st = Inr st'"
  shows "orders_ok (ex_kb st') = orders_ok (ex_kb st) \<and> history_ok (ex_kb st') = history_ok (ex_kb st)"
proof -
  from assms consider "st' = st"
    | kb1 c where "record_order ((ex_kb st)\<lparr>budget := kb1\<rparr>) (fst e) (oe_qty (snd e)) c = Inr (ex_kb st')"
    by (auto simp: execute_order_def Let_def split: if_splits sum.splits)
  then show ?thesis
  proof cases
    case 1 then show ?thesis by simp
  next
    case 2
    from record_order_ok[OF 2] show ?thesis by (simp add: orders_ok_def history_ok_def)
  qed
qed

lemma execute_ok:
  assumes "execute randint kb env p = Inr st"
  shows "orders_ok (ex_kb st) = orders_ok kb \<and> history_ok (ex_kb st) = history_ok kb"
proof -
  have loop: "for_each (execute_order randint) es s = Inr s' \<Longrightarrow>
      orders_ok (ex_kb s') = orders_ok (ex_kb s) \<and> history_ok (ex_kb s') = history_ok (ex_kb s)"
    for es s s'
  proof (induction es arbitrary: s)
    case Nil then show ?case by simp
  next
    case (Cons x xs)
    then obtain s1 where s1: "execute_order randint x s = Inr s1"
      "for_each (execute_order randint) xs s1 = Inr s'"
      by (auto split: sum.splits)
    from execute_order_ok[OF s1(1)] Cons.IH[OF s1(2)] show ?case by simp
  qed
  from assms obtain s' where
    "for_each (execute_order randint) (plan_orders p)
       \<lparr>ex_kb = kb, ex_env = env, ex_actions = \<lparr>orders_placed = [], act_spend = 0\<rparr>\<rparr> = Inr s'"
    "ex_kb st = ex_kb s'"
    by (auto simp: execute_def split: sum.splits)
  with loop[OF this(1)] show ?thesis by simp
qed

end
